theory Spec2Isabelle
  imports Complex_Main "HOL-Library.Word"
begin

section \<open>Embedding of the shared-mailbox mail client\<close>

text \<open>
  The development follows \<^verbatim>\<open>MailClient.ts\<close> (class \<^verbatim>\<open>MailClient\<close>) and
  \<^verbatim>\<open>utils.ts\<close>. JavaScript numbers that the code uses as byte counts and offsets are
  modelled as \<^typ>\<open>int\<close> (they may become negative), buffers as lists of bytes, strings
  as \<^typ>\<open>string\<close> (one \<^typ>\<open>char\<close> per code unit, Latin-1 range).
\<close>

subsection \<open>Constants and chunk-size normalization\<close>

type_synonym byte = "8 word"
type_synonym buffer = "byte list"

text \<open>\<^verbatim>\<open>const MAX_ATTACHMENT_SIZE = 150 * 1024 * 1024\<close>\<close>

definition MAX_ATTACHMENT_SIZE :: int where
  "MAX_ATTACHMENT_SIZE = 150 * 1024 * 1024"

text \<open>\<^verbatim>\<open>const base = 320 * 1024\<close>, local to the constructor and to each upload method.\<close>

definition base :: int where
  "base = 320 * 1024"

text \<open>
  The JavaScript remainder \<^verbatim>\<open>a % b\<close> truncates towards zero: its sign is the sign of
  the dividend.
\<close>

definition js_rem :: "int \<Rightarrow> int \<Rightarrow> int" where
  "js_rem a b = sgn a * (\<bar>a\<bar> mod \<bar>b\<bar>)"

text \<open>
  JavaScript numbers are doubles. The lengths and offsets of the upload code are below
  \<open>2 ^ 53\<close>, where integer arithmetic is exact, but a configured chunk size may be any
  integer that is a double, and the quotient and the product of the normalization are
  rounded. Rounding is to the nearest double, ties to the even significand of 53 bits.
\<close>

text \<open>The number of bits of a positive integer.\<close>

function bit_length :: "int \<Rightarrow> nat" where
  "bit_length n = (if n \<le> 0 then 0 else Suc (bit_length (n div 2)))"
  by pat_completeness auto
termination
  by (relation "measure nat") auto

text \<open>The integer nearest to \<open>n / d\<close> for \<open>d > 0\<close>, the even one of two nearest.\<close>

definition round_half_even :: "int \<Rightarrow> int \<Rightarrow> int" where
  "round_half_even n d =
     (if 2 * (n mod d) < d then n div d
      else if 2 * (n mod d) > d then n div d + 1
      else if even (n div d) then n div d
      else n div d + 1)"

text \<open>
  The exponent \<open>t\<close> of the leading bit of \<open>n / d\<close> for positive \<open>n\<close> and \<open>d\<close>:
  \<open>2 ^ t \<le> n / d < 2 ^ (t + 1)\<close>.
\<close>

definition quotient_exponent :: "int \<Rightarrow> int \<Rightarrow> int" where
  "quotient_exponent n d =
     (let t = int (bit_length n) - int (bit_length d)
      in if d * 2 ^ nat t \<le> n * 2 ^ nat (- t) then t else t - 1)"

text \<open>
  \<^verbatim>\<open>Math.floor(a / b)\<close> for integers \<open>a\<close> and \<open>b > 0\<close>: the quotient is rounded to the
  double \<open>\<plusminus> m * 2 ^ e\<close> with a significand \<open>m\<close> of 53 bits, then floored.
\<close>

definition floor_of_quotient :: "int \<Rightarrow> int \<Rightarrow> int" where
  "floor_of_quotient a b =
     (if a = 0 then 0
      else
        let e = quotient_exponent \<bar>a\<bar> b - 52;
            m = round_half_even (\<bar>a\<bar> * 2 ^ nat (- e)) (b * 2 ^ nat e)
        in (sgn a * m * 2 ^ nat e) div 2 ^ nat (- e))"

text \<open>
  The double nearest to an integer: up to 53 bits the integer itself, beyond that its
  leading 53 bits, rounded.
\<close>

definition double_of_int :: "int \<Rightarrow> int" where
  "double_of_int n =
     sgn n * round_half_even \<bar>n\<bar> (2 ^ (bit_length \<bar>n\<bar> - 53)) * 2 ^ (bit_length \<bar>n\<bar> - 53)"

text \<open>
  The block that the constructor and the three upload methods repeat verbatim:
  \<^verbatim>\<open>
  if (chunkSize % base !== 0) {
    chunkSize = Math.max(base, Math.floor(chunkSize / base) * base)
  }\<close>
  The remainder of two doubles is exact; the quotient and the product are rounded as
  above (neither overflows nor is subnormal for a finite integer).
\<close>

definition normalizeChunkSize :: "int \<Rightarrow> int" where
  "normalizeChunkSize chunk_size =
     (if js_rem chunk_size base \<noteq> 0
      then max base (double_of_int (floor_of_quotient chunk_size base * base))
      else chunk_size)"

record AttachmentUploadOptions =
  largeFileThreshold :: int
  chunkSize :: int

text \<open>The optional configuration a caller passes; an absent field keeps the default.\<close>

record AttachmentUploadConfig =
  cfg_largeFileThreshold :: "int option"
  cfg_chunkSize :: "int option"

definition defaultAttachmentUploadOptions :: AttachmentUploadOptions where
  "defaultAttachmentUploadOptions =
     \<lparr>largeFileThreshold = 3 * 1024 * 1024, chunkSize = 320 * 1024\<rparr>"

text \<open>
  Errors are values. The first six are the \<^verbatim>\<open>Error\<close> objects that the class itself
  throws, named after their messages; \<open>TypeError\<close> is a property read on
  \<^verbatim>\<open>undefined\<close>; \<open>CollaboratorFailure\<close> is any exception that a collaborator (the
  Graph client, \<^verbatim>\<open>fetch\<close>, the file system) throws into the class.
\<close>

datatype error =
    NoRecipients
  | AttachmentTooLarge
  | ChunkUploadFailed nat
  | FinalChunkUploadFailed nat
  | IdRequired
  | MessageNotFound
  | TypeError
  | CollaboratorFailure

text \<open>
  The logging hook \<^verbatim>\<open>error?: (...args: any[]) => void\<close> is a function of the caller:
  called with the message and the error, it returns (\<open>None\<close>) or throws. The
  \<^verbatim>\<open>error\<close> property of \<^verbatim>\<open>options.logger\<close> is absent, present with the value
  \<^verbatim>\<open>undefined\<close>, or a hook.
\<close>

type_synonym hook = "string \<Rightarrow> error \<Rightarrow> error option"

datatype logger_error = ErrorAbsent | ErrorUndefined | ErrorHook hook

record CredentialOptions =
  opt_sharedMailbox :: string
  opt_attachmentUploadOptions :: "AttachmentUploadConfig option"
  opt_logger :: "logger_error option"

text \<open>
  \<^verbatim>\<open>this.logger.error\<close> is \<open>None\<close> when it is \<^verbatim>\<open>undefined\<close>.
\<close>

record MailClient =
  sharedMailbox :: string
  attachmentUploadOptions :: AttachmentUploadOptions
  logger_error :: "hook option"

text \<open>\<^verbatim>\<open>error: (...args: any[]) => console.error(...args)\<close> returns.\<close>

definition defaultLogger :: hook where
  "defaultLogger message e = None"

text \<open>
  The constructor: the defaults are overridden by the fields the caller gave, then the
  chunk size is normalized. Credentials and the Graph client are collaborators and are
  not part of the state that the operations below read.
\<close>

definition mergeOptions :: "AttachmentUploadConfig option \<Rightarrow> AttachmentUploadOptions" where
  "mergeOptions cfg =
     (case cfg of
        None \<Rightarrow> defaultAttachmentUploadOptions
      | Some c \<Rightarrow>
          \<lparr>largeFileThreshold =
             (case cfg_largeFileThreshold c of
                None \<Rightarrow> largeFileThreshold defaultAttachmentUploadOptions | Some t \<Rightarrow> t),
           chunkSize =
             (case cfg_chunkSize c of
                None \<Rightarrow> chunkSize defaultAttachmentUploadOptions | Some s \<Rightarrow> s)\<rparr>)"

text \<open>
  \<^verbatim>\<open>this.logger = { ...defaultLogger, ...(options.logger || {}) }\<close>: a property that is
  present wins over the default, also when its value is \<^verbatim>\<open>undefined\<close>.
\<close>

definition mergeLogger :: "logger_error option \<Rightarrow> hook option" where
  "mergeLogger l =
     (case l of
        None \<Rightarrow> Some defaultLogger
      | Some ErrorAbsent \<Rightarrow> Some defaultLogger
      | Some ErrorUndefined \<Rightarrow> None
      | Some (ErrorHook h) \<Rightarrow> Some h)"

definition newMailClient :: "CredentialOptions \<Rightarrow> MailClient" where
  "newMailClient options =
     (let merged = mergeOptions (opt_attachmentUploadOptions options)
      in \<lparr>sharedMailbox = opt_sharedMailbox options,
          attachmentUploadOptions =
            merged\<lparr>chunkSize := normalizeChunkSize (chunkSize merged)\<rparr>,
          logger_error = mergeLogger (opt_logger options)\<rparr>)"

subsection \<open>Recipient parsing\<close>

text \<open>The \<^verbatim>\<open>to\<close>, \<^verbatim>\<open>cc\<close> and \<^verbatim>\<open>bcc\<close> values: \<^verbatim>\<open>string | string[]\<close>.\<close>

datatype recipients_input = Single string | Many "string list"

datatype recipient = EmailAddress (address: string)

text \<open>The separator class \<^verbatim>\<open>[;,]\<close>.\<close>

definition is_sep :: "char \<Rightarrow> bool" where
  "is_sep c \<longleftrightarrow> c = CHR '';'' \<or> c = CHR '',''"

text \<open>
  \<^verbatim>\<open>p.split(/[;,]+/)\<close>: the fields between maximal runs of separators. A string without
  separator gives itself (also the empty string); a leading or trailing run gives an
  empty first or last field.
\<close>

function split_fields :: "string \<Rightarrow> string \<Rightarrow> string list" where
  "split_fields cur [] = [cur]"
| "split_fields cur (c # cs) =
     (if is_sep c then cur # split_fields [] (dropWhile is_sep cs)
      else split_fields (cur @ [c]) cs)"
  by pat_completeness auto
termination
  by (relation "measure (\<lambda>(cur, s). length s)")
     (auto simp: length_dropWhile_le less_Suc_eq_le)

definition split_seps :: "string \<Rightarrow> string list" where
  "split_seps p = split_fields [] p"

text \<open>
  \<^verbatim>\<open>String.prototype.trim\<close> removes white space and line terminators at both ends; in
  the Latin-1 range these are TAB, LF, VT, FF, CR, SPACE and NBSP.
\<close>

definition is_space :: "char \<Rightarrow> bool" where
  "is_space c \<longleftrightarrow> c \<in> set [CHR 0x09, CHR 0x0A, CHR 0x0B, CHR 0x0C, CHR 0x0D, CHR 0x20, CHR 0xA0]"

definition trim :: "string \<Rightarrow> string" where
  "trim s = rev (dropWhile is_space (rev (dropWhile is_space s)))"

text \<open>The inner loop over the fields of one part: trimmed, non-empty fields are pushed.\<close>

fun push_fields :: "string list \<Rightarrow> string list \<Rightarrow> string list" where
  "push_fields addresses [] = addresses"
| "push_fields addresses (s # ss) =
     (let addr = trim s
      in push_fields (if addr \<noteq> [] then addresses @ [addr] else addresses) ss)"

text \<open>The outer loop over the parts.\<close>

fun push_parts :: "string list \<Rightarrow> string list \<Rightarrow> string list" where
  "push_parts addresses [] = addresses"
| "push_parts addresses (p # ps) = push_parts (push_fields addresses (split_seps p)) ps"

text \<open>
  \<^verbatim>\<open>Array.from(new Set(addresses))\<close>: a set keeps insertion order, and adding a value
  that is already present changes nothing.
\<close>

definition set_insert :: "'a list \<Rightarrow> 'a \<Rightarrow> 'a list" where
  "set_insert seen a = (if a \<in> set seen then seen else seen @ [a])"

definition array_from_set :: "'a list \<Rightarrow> 'a list" where
  "array_from_set xs = foldl set_insert [] xs"

text \<open>Truthiness of the input: \<^verbatim>\<open>undefined\<close> and the empty string are falsy, arrays are not.\<close>

fun buildRecipients :: "recipients_input option \<Rightarrow> recipient list option" where
  "buildRecipients None = None"
| "buildRecipients (Some inp) =
     (if inp = Single [] then None
      else
        let parts = (case inp of Many ps \<Rightarrow> ps | Single p \<Rightarrow> [p]);
            addresses = push_parts [] parts;
            unique = array_from_set addresses
        in if unique \<noteq> [] then Some (map EmailAddress unique) else None)"

subsection \<open>The recipient list in the words of the specification\<close>

text \<open>
  For comparison with \<open>buildRecipients\<close>: the string is cut at every semicolon and every
  comma, each piece is trimmed, the empty pieces are dropped, and of equal addresses the
  first occurrence stays (\<open>remdups\<close> keeps the last one, hence the reversals).
\<close>

fun spec_split :: "string \<Rightarrow> string list" where
  "spec_split [] = [[]]"
| "spec_split (c # cs) =
     (if is_sep c then [] # spec_split cs
      else case spec_split cs of [] \<Rightarrow> [[c]] | f # fs \<Rightarrow> (c # f) # fs)"

definition spec_recipients :: "string \<Rightarrow> string list" where
  "spec_recipients s = rev (remdups (rev (filter (\<lambda>a. a \<noteq> []) (map trim (spec_split s)))))"

subsection \<open>Content types (\<^verbatim>\<open>utils.ts\<close>)\<close>

text \<open>
  \<^verbatim>\<open>toLowerCase\<close> on the Latin-1 range: A to Z and the accented capitals (all of
  0xC0 to 0xDE but the multiplication sign) move up by 32.
\<close>

definition toLowerCase_char :: "char \<Rightarrow> char" where
  "toLowerCase_char c =
     (let n = (of_char c :: nat)
      in if (65 \<le> n \<and> n \<le> 90) \<or> (192 \<le> n \<and> n \<le> 222 \<and> n \<noteq> 215)
         then char_of (n + 32) else c)"

definition toLowerCase :: "string \<Rightarrow> string" where
  "toLowerCase s = map toLowerCase_char s"

text \<open>\<^verbatim>\<open>s.split(sep).pop()\<close> for a one-character separator: what follows the last one.\<close>

definition split_pop :: "char \<Rightarrow> string \<Rightarrow> string" where
  "split_pop sep s = rev (takeWhile (\<lambda>c. c \<noteq> sep) (rev s))"

definition mimeTypes :: "(string \<times> string) list" where
  "mimeTypes =
     [(''pdf'', ''application/pdf''),
      (''doc'', ''application/msword''),
      (''docx'', ''application/vnd.openxmlformats-officedocument.wordprocessingml.document''),
      (''xls'', ''application/vnd.ms-excel''),
      (''xlsx'', ''application/vnd.openxmlformats-officedocument.spreadsheetml.sheet''),
      (''ppt'', ''application/vnd.ms-powerpoint''),
      (''pptx'', ''application/vnd.openxmlformats-officedocument.presentationml.presentation''),
      (''jpg'', ''image/jpeg''),
      (''jpeg'', ''image/jpeg''),
      (''png'', ''image/png''),
      (''gif'', ''image/gif''),
      (''bmp'', ''image/bmp''),
      (''svg'', ''image/svg+xml''),
      (''webp'', ''image/webp''),
      (''tiff'', ''image/tiff''),
      (''tif'', ''image/tiff''),
      (''txt'', ''text/plain''),
      (''html'', ''text/html''),
      (''htm'', ''text/html''),
      (''css'', ''text/css''),
      (''csv'', ''text/csv''),
      (''xml'', ''text/xml''),
      (''json'', ''application/json''),
      (''zip'', ''application/zip''),
      (''rar'', ''application/x-rar-compressed''),
      (''7z'', ''application/x-7z-compressed''),
      (''tar'', ''application/x-tar''),
      (''gz'', ''application/gzip''),
      (''bz2'', ''application/x-bzip2''),
      (''mp3'', ''audio/mpeg''),
      (''wav'', ''audio/wav''),
      (''ogg'', ''audio/ogg''),
      (''flac'', ''audio/flac''),
      (''aac'', ''audio/aac''),
      (''mp4'', ''video/mp4''),
      (''avi'', ''video/x-msvideo''),
      (''mov'', ''video/quicktime''),
      (''wmv'', ''video/x-ms-wmv''),
      (''flv'', ''video/x-flv''),
      (''webm'', ''video/webm''),
      (''mkv'', ''video/x-matroska''),
      (''exe'', ''application/x-msdownload''),
      (''dll'', ''application/x-msdownload''),
      (''apk'', ''application/vnd.android.package-archive''),
      (''dmg'', ''application/x-apple-diskimage''),
      (''iso'', ''application/x-iso9660-image''),
      (''jar'', ''application/java-archive''),
      (''msi'', ''application/x-msi''),
      (''bin'', ''application/octet-stream'')]"

text \<open>
  The lookup \<^verbatim>\<open>extension in mimeTypes\<close> also finds the properties that the object
  literal inherits; the two whose names survive \<^verbatim>\<open>toLowerCase\<close> are
  \<^verbatim>\<open>constructor\<close> and \<^verbatim>\<open>__proto__\<close>, and the value read there is not a string.
\<close>

datatype content_type = Mime string | InheritedProperty string

definition getContentTypeFromFileName :: "string \<Rightarrow> content_type" where
  "getContentTypeFromFileName fileName =
     (let extension = toLowerCase (split_pop CHR ''.'' fileName)
      in if extension = [] then Mime ''application/octet-stream''
         else case map_of mimeTypes extension of
                Some t \<Rightarrow> Mime t
              | None \<Rightarrow>
                  if extension \<in> set [''constructor'', ''__proto__'']
                  then InheritedProperty extension
                  else Mime ''application/octet-stream'')"

subsection \<open>Buffers\<close>

text \<open>
  \<^verbatim>\<open>Buffer.prototype.subarray(start, end)\<close>: a negative index counts from the end, every
  index is clamped to the buffer, and an end before the start gives the empty buffer.
\<close>

definition adjustOffset :: "int \<Rightarrow> int \<Rightarrow> int" where
  "adjustOffset offset len =
     (if offset = 0 then 0
      else if offset < 0 then (if offset + len > 0 then offset + len else 0)
      else if offset < len then offset
      else len)"

definition subarray :: "buffer \<Rightarrow> int \<Rightarrow> int \<Rightarrow> buffer" where
  "subarray buf start end =
     (let srcLength = int (length buf);
          s = adjustOffset start srcLength;
          e = adjustOffset end srcLength;
          newLength = (if e > s then e - s else 0)
      in take (nat newLength) (drop (nat s) buf))"

text \<open>
  \<^verbatim>\<open>Buffer.from(string)\<close> encodes in UTF-8: one byte below 0x80, two bytes for the rest
  of the Latin-1 range.
\<close>

definition utf8_char :: "char \<Rightarrow> buffer" where
  "utf8_char c =
     (let n = (of_char c :: nat)
      in if n < 128 then [of_nat n]
         else [of_nat (192 + n div 64), of_nat (128 + n mod 64)])"

definition Buffer_from_string :: "string \<Rightarrow> buffer" where
  "Buffer_from_string s = concat (map utf8_char s)"

text \<open>\<^verbatim>\<open>buf.toString('base64')\<close>: three bytes give four digits, the tail is padded.\<close>

definition b64_alphabet :: string where
  "b64_alphabet = ''ABCDEFGHIJKLMNOPQRSTUVWXYZabcdefghijklmnopqrstuvwxyz0123456789+/''"

definition b64_digit :: "nat \<Rightarrow> char" where
  "b64_digit n = b64_alphabet ! (n mod 64)"

fun toBase64 :: "buffer \<Rightarrow> string" where
  "toBase64 (a # b # c # rest) =
     (let n = unat a * 65536 + unat b * 256 + unat c
      in b64_digit (n div 262144) # b64_digit (n div 4096) # b64_digit (n div 64) #
         b64_digit n # toBase64 rest)"
| "toBase64 [a, b] =
     (let n = unat a * 65536 + unat b * 256
      in [b64_digit (n div 262144), b64_digit (n div 4096), b64_digit (n div 64), CHR ''=''])"
| "toBase64 [a] =
     (let n = unat a * 65536
      in [b64_digit (n div 262144), b64_digit (n div 4096), CHR ''='', CHR ''=''])"
| "toBase64 [] = []"

subsection \<open>The outside world\<close>

text \<open>
  A \<^verbatim>\<open>fetch\<close> response: the \<^verbatim>\<open>content-length\<close> header is kept as the number that
  \<^verbatim>\<open>Number\<close> reads from it (\<open>None\<close> when the header is absent, empty or not a
  number); the body stream is the list of the buffers that its reader yields.
\<close>

record http_response =
  res_ok :: bool
  res_status :: nat
  res_content_length :: "int option"
  res_arrayBuffer :: buffer
  res_body :: "buffer list option"

record file_stats =
  st_isFile :: bool
  st_size :: int

record draft_message =
  dm_subject :: string
  dm_toRecipients :: "recipient list option"
  dm_ccRecipients :: "recipient list option"
  dm_bccRecipients :: "recipient list option"
  dm_body :: "(string \<times> string) option"

text \<open>The bodies that the class posts to the Graph client.\<close>

datatype post_body =
    DraftMessage draft_message
  | FileAttachment string string content_type
  | AttachmentItem string int content_type
  | EmptyBody

record graph_reply =
  reply_id :: string
  reply_internetMessageId :: string
  reply_uploadUrl :: string

text \<open>
  What a Graph \<^verbatim>\<open>get\<close> resolves to: \<^verbatim>\<open>undefined\<close>, or an object of which the class
  reads and writes the properties \<^verbatim>\<open>id\<close>, \<^verbatim>\<open>value\<close> and \<^verbatim>\<open>attachments\<close> (the last
  two absent or an array); the other properties are kept as they are.
\<close>

datatype json =
    JUndefined
  | JObject string "(string \<times> string) list" "json list option" "json list option"

text \<open>
  The collaborators, as functions of the request: \<open>None\<close> is a thrown exception.
  \<open>url_basename\<close> stands for \<^verbatim>\<open>path.basename(new URL(href).pathname)\<close>, \<open>fs_open\<close>
  for \<^verbatim>\<open>fs.open\<close> followed by \<^verbatim>\<open>createReadStream\<close> with the given
  \<^verbatim>\<open>highWaterMark\<close>: the buffers that the stream yields.
\<close>

record world =
  url_basename :: "string \<Rightarrow> string option"
  fs_stat :: "string \<Rightarrow> file_stats option"
  fs_readFile :: "string \<Rightarrow> buffer option"
  fs_open :: "string \<Rightarrow> int \<Rightarrow> buffer list option"
  fetch_head :: "string \<Rightarrow> http_response option"
  fetch_get :: "string \<Rightarrow> http_response option"
  fetch_put :: "string \<Rightarrow> int \<Rightarrow> int \<Rightarrow> int \<Rightarrow> buffer \<Rightarrow> http_response option"
  graph_post :: "string \<Rightarrow> post_body \<Rightarrow> graph_reply option"
  graph_get :: "string \<Rightarrow> string option \<Rightarrow> string \<Rightarrow> json option"

text \<open>
  Every call that leaves the class is recorded, in order. \<open>FetchPut url start end total
  body\<close> is a PUT with \<^verbatim>\<open>Content-Range: bytes start-end/total\<close>.
\<close>

datatype event =
    GraphPost string post_body
  | GraphGet string "string option" string
  | FsStat string
  | FsReadFile string
  | FsOpen string int
  | FsClose string
  | FetchHead string
  | FetchGet string
  | FetchPut string int int int buffer
  | LoggerError string error

text \<open>
  An operation returns what it returned or threw, and the calls made so far. The loops
  whose exit depends on the chunk size take fuel: \<open>None\<close> is a loop still running when
  the fuel ended.
\<close>

type_synonym 'a outcome = "(error + 'a) option \<times> event list"

definition api_post ::
  "world \<Rightarrow> string \<Rightarrow> post_body \<Rightarrow> event list \<Rightarrow> (error + graph_reply) \<times> event list" where
  "api_post w p b tr =
     (case graph_post w p b of
        None \<Rightarrow> (Inl CollaboratorFailure, tr @ [GraphPost p b])
      | Some r \<Rightarrow> (Inr r, tr @ [GraphPost p b]))"

text \<open>
  One range PUT and the status check that follows it in each of the four places:
  \<^verbatim>\<open>if (!res.ok && res.status !== 202 && res.status !== 201 && res.status !== 200) throw\<close>.
\<close>

definition put_range ::
  "world \<Rightarrow> string \<Rightarrow> int \<Rightarrow> int \<Rightarrow> int \<Rightarrow> buffer \<Rightarrow> (nat \<Rightarrow> error) \<Rightarrow> event list \<Rightarrow>
   (error + unit) \<times> event list" where
  "put_range w uploadUrl start end totalSize chunk failure tr =
     (case fetch_put w uploadUrl start end totalSize chunk of
        None \<Rightarrow> (Inl CollaboratorFailure, tr @ [FetchPut uploadUrl start end totalSize chunk])
      | Some res \<Rightarrow>
          if \<not> res_ok res \<and> res_status res \<noteq> 202 \<and> res_status res \<noteq> 201 \<and> res_status res \<noteq> 200
          then (Inl (failure (res_status res)), tr @ [FetchPut uploadUrl start end totalSize chunk])
          else (Inr (), tr @ [FetchPut uploadUrl start end totalSize chunk]))"

definition attachments_path :: "MailClient \<Rightarrow> string \<Rightarrow> string" where
  "attachments_path c messageId =
     ''/users/'' @ sharedMailbox c @ ''/messages/'' @ messageId @ ''/attachments''"

definition session_path :: "MailClient \<Rightarrow> string \<Rightarrow> string" where
  "session_path c messageId =
     ''/users/'' @ sharedMailbox c @ ''/messages/'' @ messageId @
     ''/attachments/createUploadSession''"

subsection \<open>Chunked upload of a buffer\<close>

text \<open>
  The loop of \<^verbatim>\<open>uploadLargeContent\<close>:
  \<^verbatim>\<open>while (offset < content.length) { ...; offset = endExclusive }\<close>.
\<close>

fun uploadLargeContent_loop ::
  "nat \<Rightarrow> world \<Rightarrow> string \<Rightarrow> int \<Rightarrow> buffer \<Rightarrow> int \<Rightarrow> event list \<Rightarrow> unit outcome" where
  "uploadLargeContent_loop 0 w uploadUrl chunk_size content offset tr =
     (if offset < int (length content) then (None, tr) else (Some (Inr ()), tr))"
| "uploadLargeContent_loop (Suc fuel) w uploadUrl chunk_size content offset tr =
     (if offset < int (length content) then
        let endExclusive = min (offset + chunk_size) (int (length content));
            chunk = subarray content offset endExclusive;
            start = offset;
            end = endExclusive - 1
        in case put_range w uploadUrl start end (int (length content)) chunk
                  ChunkUploadFailed tr of
             (Inl e, tr') \<Rightarrow> (Some (Inl e), tr')
           | (Inr u, tr') \<Rightarrow>
               uploadLargeContent_loop fuel w uploadUrl chunk_size content endExclusive tr'
      else (Some (Inr ()), tr))"

definition uploadLargeContent ::
  "nat \<Rightarrow> world \<Rightarrow> MailClient \<Rightarrow> string \<Rightarrow> string \<Rightarrow> buffer \<Rightarrow> content_type \<Rightarrow>
   event list \<Rightarrow> unit outcome" where
  "uploadLargeContent fuel w c messageId fileName content contentType tr =
     (let chunk_size = normalizeChunkSize (chunkSize (attachmentUploadOptions c))
      in if int (length content) > MAX_ATTACHMENT_SIZE then (Some (Inl AttachmentTooLarge), tr)
         else
           case api_post w (session_path c messageId)
                  (AttachmentItem fileName (int (length content)) contentType) tr of
             (Inl e, tr') \<Rightarrow> (Some (Inl e), tr')
           | (Inr session, tr') \<Rightarrow>
               uploadLargeContent_loop fuel w (reply_uploadUrl session) chunk_size content 0 tr')"

subsection \<open>Chunked upload of a local file\<close>

text \<open>The loop \<^verbatim>\<open>for await (const chunk of fileStream)\<close> of \<^verbatim>\<open>uploadLargeFileByPath\<close>.\<close>

fun uploadLargeFileByPath_loop ::
  "world \<Rightarrow> string \<Rightarrow> int \<Rightarrow> buffer list \<Rightarrow> int \<Rightarrow> event list \<Rightarrow>
   (error + unit) \<times> event list" where
  "uploadLargeFileByPath_loop w uploadUrl fileSize [] offset tr = (Inr (), tr)"
| "uploadLargeFileByPath_loop w uploadUrl fileSize (chunkData # rest) offset tr =
     (let start = offset;
          end = start + int (length chunkData) - 1
      in case put_range w uploadUrl start end fileSize chunkData ChunkUploadFailed tr of
           (Inl e, tr') \<Rightarrow> (Inl e, tr')
         | (Inr u, tr') \<Rightarrow>
             uploadLargeFileByPath_loop w uploadUrl fileSize rest
               (offset + int (length chunkData)) tr')"

definition uploadLargeFileByPath ::
  "world \<Rightarrow> MailClient \<Rightarrow> string \<Rightarrow> string \<Rightarrow> string \<Rightarrow> content_type \<Rightarrow> int \<Rightarrow>
   event list \<Rightarrow> unit outcome" where
  "uploadLargeFileByPath w c messageId fileName filePath contentType fileSize tr =
     (let chunk_size = normalizeChunkSize (chunkSize (attachmentUploadOptions c))
      in if fileSize > MAX_ATTACHMENT_SIZE then (Some (Inl AttachmentTooLarge), tr)
         else
           case api_post w (session_path c messageId)
                  (AttachmentItem fileName fileSize contentType) tr of
             (Inl e, tr') \<Rightarrow> (Some (Inl e), tr')
           | (Inr session, tr') \<Rightarrow>
               (case fs_open w filePath chunk_size of
                  None \<Rightarrow> (Some (Inl CollaboratorFailure), tr' @ [FsOpen filePath chunk_size])
                | Some fileStream \<Rightarrow>
                    (case uploadLargeFileByPath_loop w (reply_uploadUrl session) fileSize
                            fileStream 0 (tr' @ [FsOpen filePath chunk_size]) of
                       (Inl e, tr'') \<Rightarrow> (Some (Inl e), tr'')
                     | (Inr u, tr'') \<Rightarrow> (Some (Inr ()), tr'' @ [FsClose filePath]))))"

subsection \<open>Attachments from a URL\<close>

text \<open>The test \<^verbatim>\<open>/^https?:\/\//i\<close>.\<close>

definition is_http_url :: "string \<Rightarrow> bool" where
  "is_http_url href \<longleftrightarrow>
     toLowerCase (take 7 href) = ''http://'' \<or> toLowerCase (take 8 href) = ''https://''"

text \<open>
  Reading a \<^verbatim>\<open>content-length\<close> header: \<^verbatim>\<open>if (!Number.isNaN(parsed) && parsed >= 0)\<close>.
\<close>

definition header_size :: "int option \<Rightarrow> int option" where
  "header_size cl =
     (case cl of None \<Rightarrow> None | Some parsed \<Rightarrow> if parsed \<ge> 0 then Some parsed else None)"

text \<open>The HEAD probe; an exception of \<^verbatim>\<open>fetch\<close> is caught and leaves the size unknown.\<close>

definition probe_size :: "world \<Rightarrow> string \<Rightarrow> int option" where
  "probe_size w href =
     (case fetch_head w href of
        None \<Rightarrow> None
      | Some head \<Rightarrow> if res_ok head then header_size (res_content_length head) else None)"

text \<open>\<^verbatim>\<open>size !== undefined && size > bound\<close> and \<^verbatim>\<open>size !== undefined && size <= bound\<close>.\<close>

definition known_above :: "int option \<Rightarrow> int \<Rightarrow> bool" where
  "known_above sz bound = (case sz of None \<Rightarrow> False | Some n \<Rightarrow> n > bound)"

definition known_at_most :: "int option \<Rightarrow> int \<Rightarrow> bool" where
  "known_at_most sz bound = (case sz of None \<Rightarrow> False | Some n \<Rightarrow> n \<le> bound)"

text \<open>
  The inner loop of the streaming branch:
  \<^verbatim>\<open>while (pending.length >= chunkSize) { PUT pending.subarray(0, chunkSize); ... }\<close>.
  It returns the new offset and what is left pending.
\<close>

fun stream_peel_loop ::
  "nat \<Rightarrow> world \<Rightarrow> string \<Rightarrow> int \<Rightarrow> int \<Rightarrow> int \<Rightarrow> buffer \<Rightarrow> event list \<Rightarrow>
   (int \<times> buffer) outcome" where
  "stream_peel_loop 0 w uploadUrl chunk_size sz offset pending tr =
     (if int (length pending) \<ge> chunk_size then (None, tr)
      else (Some (Inr (offset, pending)), tr))"
| "stream_peel_loop (Suc fuel) w uploadUrl chunk_size sz offset pending tr =
     (if int (length pending) \<ge> chunk_size then
        let toSend = subarray pending 0 chunk_size;
            start = offset;
            end = start + int (length toSend) - 1
        in case put_range w uploadUrl start end sz toSend ChunkUploadFailed tr of
             (Inl e, tr') \<Rightarrow> (Some (Inl e), tr')
           | (Inr u, tr') \<Rightarrow>
               stream_peel_loop fuel w uploadUrl chunk_size sz
                 (offset + int (length toSend))
                 (subarray pending (int (length toSend)) (int (length pending))) tr'
      else (Some (Inr (offset, pending)), tr))"

text \<open>
  The outer loop \<^verbatim>\<open>while (true) { const { done, value } = await reader.read(); ... }\<close>
  over the buffers of the body stream.
\<close>

fun stream_read_loop ::
  "nat \<Rightarrow> world \<Rightarrow> string \<Rightarrow> int \<Rightarrow> int \<Rightarrow> buffer list \<Rightarrow> int \<Rightarrow> buffer \<Rightarrow> event list \<Rightarrow>
   (int \<times> buffer) outcome" where
  "stream_read_loop fuel w uploadUrl chunk_size sz [] offset pending tr =
     (Some (Inr (offset, pending)), tr)"
| "stream_read_loop fuel w uploadUrl chunk_size sz (chunkBuf # rest) offset pending tr =
     (case stream_peel_loop fuel w uploadUrl chunk_size sz offset
             (if pending = [] then chunkBuf else pending @ chunkBuf) tr of
        (Some (Inr (offset2, pending2)), tr2) \<Rightarrow>
          stream_read_loop fuel w uploadUrl chunk_size sz rest offset2 pending2 tr2
      | (Some (Inl e), tr2) \<Rightarrow> (Some (Inl e), tr2)
      | (None, tr2) \<Rightarrow> (None, tr2))"

text \<open>The branch \<^verbatim>\<open>if (size !== undefined && size > largeFileThreshold)\<close>.\<close>

definition upload_url_stream ::
  "nat \<Rightarrow> world \<Rightarrow> MailClient \<Rightarrow> string \<Rightarrow> string \<Rightarrow> content_type \<Rightarrow> int \<Rightarrow> int \<Rightarrow>
   buffer list \<Rightarrow> event list \<Rightarrow> unit outcome" where
  "upload_url_stream fuel w c messageId fileName contentType chunk_size sz stream tr =
     (case api_post w (session_path c messageId) (AttachmentItem fileName sz contentType) tr of
        (Inl e, tr1) \<Rightarrow> (Some (Inl e), tr1)
      | (Inr session, tr1) \<Rightarrow>
          (case stream_read_loop fuel w (reply_uploadUrl session) chunk_size sz stream 0 [] tr1 of
             (Some (Inr (offset, pending)), tr2) \<Rightarrow>
               if length pending > 0 then
                 (case put_range w (reply_uploadUrl session) offset (sz - 1) sz pending
                         FinalChunkUploadFailed tr2 of
                    (Inl e, tr3) \<Rightarrow> (Some (Inl e), tr3)
                  | (Inr u, tr3) \<Rightarrow> (Some (Inr ()), tr3))
               else (Some (Inr ()), tr2)
           | (Some (Inl e), tr2) \<Rightarrow> (Some (Inl e), tr2)
           | (None, tr2) \<Rightarrow> (None, tr2)))"

text \<open>
  The last loop of the method: the whole body is kept in memory, and the read stops as
  soon as the bytes read exceed the maximum.
\<close>

fun read_all :: "buffer list \<Rightarrow> buffer list \<Rightarrow> int \<Rightarrow> error + (buffer list \<times> int)" where
  "read_all [] buffers totalSize = Inr (buffers, totalSize)"
| "read_all (buf # rest) buffers totalSize =
     (if totalSize + int (length buf) > MAX_ATTACHMENT_SIZE then Inl AttachmentTooLarge
      else read_all rest (buffers @ [buf]) (totalSize + int (length buf)))"

definition upload_url_buffered ::
  "nat \<Rightarrow> world \<Rightarrow> MailClient \<Rightarrow> string \<Rightarrow> string \<Rightarrow> content_type \<Rightarrow> buffer list \<Rightarrow>
   event list \<Rightarrow> unit outcome" where
  "upload_url_buffered fuel w c messageId fileName contentType stream tr =
     (case read_all stream [] 0 of
        Inl e \<Rightarrow> (Some (Inl e), tr)
      | Inr (buffers, totalSize) \<Rightarrow>
          if totalSize \<le> largeFileThreshold (attachmentUploadOptions c) then
            (case api_post w (attachments_path c messageId)
                    (FileAttachment fileName (toBase64 (concat buffers)) contentType) tr of
               (Inl e, tr1) \<Rightarrow> (Some (Inl e), tr1)
             | (Inr r, tr1) \<Rightarrow> (Some (Inr ()), tr1))
          else uploadLargeContent fuel w c messageId fileName (concat buffers) contentType tr)"

text \<open>The branch \<^verbatim>\<open>if (size !== undefined && size <= largeFileThreshold)\<close>.\<close>

definition upload_url_small ::
  "world \<Rightarrow> MailClient \<Rightarrow> string \<Rightarrow> string \<Rightarrow> string \<Rightarrow> content_type \<Rightarrow> event list \<Rightarrow>
   unit outcome" where
  "upload_url_small w c messageId fileName href contentType tr =
     (case fetch_get w href of
        None \<Rightarrow> (Some (Inl CollaboratorFailure), tr @ [FetchGet href])
      | Some res \<Rightarrow>
          if \<not> res_ok res then (Some (Inr ()), tr @ [FetchGet href])
          else if int (length (res_arrayBuffer res)) > MAX_ATTACHMENT_SIZE
          then (Some (Inl AttachmentTooLarge), tr @ [FetchGet href])
          else
            (case api_post w (attachments_path c messageId)
                    (FileAttachment fileName (toBase64 (res_arrayBuffer res)) contentType)
                    (tr @ [FetchGet href]) of
               (Inl e, tr1) \<Rightarrow> (Some (Inl e), tr1)
             | (Inr r, tr1) \<Rightarrow> (Some (Inr ()), tr1)))"

text \<open>What follows the second \<^verbatim>\<open>fetch(href)\<close>, with the size that the probe gave.\<close>

definition upload_url_download ::
  "nat \<Rightarrow> world \<Rightarrow> MailClient \<Rightarrow> string \<Rightarrow> string \<Rightarrow> string \<Rightarrow> content_type \<Rightarrow>
   int option \<Rightarrow> event list \<Rightarrow> unit outcome" where
  "upload_url_download fuel w c messageId fileName href contentType probed tr =
     (case fetch_get w href of
        None \<Rightarrow> (Some (Inl CollaboratorFailure), tr @ [FetchGet href])
      | Some res \<Rightarrow>
          (case res_body res of
             None \<Rightarrow> (Some (Inr ()), tr @ [FetchGet href])
           | Some stream \<Rightarrow>
               if \<not> res_ok res then (Some (Inr ()), tr @ [FetchGet href])
               else
                 let sz = (case probed of
                             None \<Rightarrow> header_size (res_content_length res)
                           | Some n \<Rightarrow> Some n);
                     chunk_size = normalizeChunkSize (chunkSize (attachmentUploadOptions c))
                 in if known_above sz MAX_ATTACHMENT_SIZE
                    then (Some (Inl AttachmentTooLarge), tr @ [FetchGet href])
                    else
                      (case sz of
                         Some n \<Rightarrow>
                           if n > largeFileThreshold (attachmentUploadOptions c)
                           then upload_url_stream fuel w c messageId fileName contentType
                                  chunk_size n stream (tr @ [FetchGet href])
                           else upload_url_buffered fuel w c messageId fileName contentType
                                  stream (tr @ [FetchGet href])
                       | None \<Rightarrow>
                           upload_url_buffered fuel w c messageId fileName contentType
                             stream (tr @ [FetchGet href]))))"

definition uploadAttachmentFromUrl ::
  "nat \<Rightarrow> world \<Rightarrow> MailClient \<Rightarrow> string \<Rightarrow> string \<Rightarrow> string \<Rightarrow> content_type \<Rightarrow>
   event list \<Rightarrow> unit outcome" where
  "uploadAttachmentFromUrl fuel w c messageId fileName href contentType tr =
     (if \<not> is_http_url href then (Some (Inr ()), tr)
      else
        let sz = probe_size w href
        in if known_above sz MAX_ATTACHMENT_SIZE
           then (Some (Inl AttachmentTooLarge), tr @ [FetchHead href])
           else if known_at_most sz (largeFileThreshold (attachmentUploadOptions c))
           then upload_url_small w c messageId fileName href contentType (tr @ [FetchHead href])
           else upload_url_download fuel w c messageId fileName href contentType sz
                  (tr @ [FetchHead href]))"

subsection \<open>The attachment loop\<close>

datatype content = StringContent string | BufferContent buffer

record attachment =
  att_filename :: "string option"
  att_content :: "content option"
  att_path :: "string option"
  att_href :: "string option"

text \<open>Truthiness: \<^verbatim>\<open>undefined\<close> and the empty string are falsy, every buffer is truthy.\<close>

definition truthy :: "string option \<Rightarrow> bool" where
  "truthy s = (case s of None \<Rightarrow> False | Some v \<Rightarrow> v \<noteq> [])"

definition truthy_content :: "content option \<Rightarrow> bool" where
  "truthy_content x =
     (case x of
        None \<Rightarrow> False
      | Some (StringContent s) \<Rightarrow> s \<noteq> []
      | Some (BufferContent b) \<Rightarrow> True)"

text \<open>\<^verbatim>\<open>x || 'attachment'\<close>\<close>

definition or_attachment :: "string \<Rightarrow> string" where
  "or_attachment s = (if s \<noteq> [] then s else ''attachment'')"

definition resolveFileName :: "world \<Rightarrow> attachment \<Rightarrow> string" where
  "resolveFileName w a =
     (if truthy (att_filename a) then the (att_filename a)
      else if truthy (att_path a) then or_attachment (split_pop CHR ''/'' (the (att_path a)))
      else if truthy (att_href a) then
        (case url_basename w (the (att_href a)) of
           Some b \<Rightarrow> or_attachment b
         | None \<Rightarrow> or_attachment (split_pop CHR ''/'' (the (att_href a))))
      else ''attachment'')"

text \<open>
  \<^verbatim>\<open>Buffer.isBuffer(content) ? content : Buffer.from(content)\<close>
\<close>

definition content_buffer :: "content \<Rightarrow> buffer" where
  "content_buffer x = (case x of BufferContent b \<Rightarrow> b | StringContent s \<Rightarrow> Buffer_from_string s)"

text \<open>The branch \<^verbatim>\<open>if (attachment.content)\<close> of the loop body.\<close>

definition upload_content ::
  "nat \<Rightarrow> world \<Rightarrow> MailClient \<Rightarrow> string \<Rightarrow> string \<Rightarrow> content_type \<Rightarrow> buffer \<Rightarrow>
   event list \<Rightarrow> unit outcome" where
  "upload_content fuel w c messageId fileName contentType buf tr =
     (if int (length buf) > MAX_ATTACHMENT_SIZE then (Some (Inl AttachmentTooLarge), tr)
      else if int (length buf) \<le> largeFileThreshold (attachmentUploadOptions c) then
        (case api_post w (attachments_path c messageId)
                (FileAttachment fileName (toBase64 buf) contentType) tr of
           (Inl e, tr1) \<Rightarrow> (Some (Inl e), tr1)
         | (Inr r, tr1) \<Rightarrow> (Some (Inr ()), tr1))
      else uploadLargeContent fuel w c messageId fileName buf contentType tr)"

text \<open>The branch \<^verbatim>\<open>if (attachment.path)\<close> of the loop body.\<close>

definition upload_path ::
  "world \<Rightarrow> MailClient \<Rightarrow> string \<Rightarrow> string \<Rightarrow> content_type \<Rightarrow> string \<Rightarrow> event list \<Rightarrow>
   unit outcome" where
  "upload_path w c messageId fileName contentType filePath tr =
     (case fs_stat w filePath of
        None \<Rightarrow> (Some (Inr ()), tr @ [FsStat filePath])
      | Some stats \<Rightarrow>
          if \<not> st_isFile stats \<or> st_size stats = 0 then (Some (Inr ()), tr @ [FsStat filePath])
          else if st_size stats > MAX_ATTACHMENT_SIZE
          then (Some (Inl AttachmentTooLarge), tr @ [FsStat filePath])
          else if st_size stats \<le> largeFileThreshold (attachmentUploadOptions c) then
            (case fs_readFile w filePath of
               None \<Rightarrow> (Some (Inl CollaboratorFailure), tr @ [FsStat filePath, FsReadFile filePath])
             | Some fileContent \<Rightarrow>
                 (case api_post w (attachments_path c messageId)
                         (FileAttachment fileName (toBase64 fileContent)
                            (getContentTypeFromFileName fileName))
                         (tr @ [FsStat filePath, FsReadFile filePath]) of
                    (Inl e, tr1) \<Rightarrow> (Some (Inl e), tr1)
                  | (Inr r, tr1) \<Rightarrow> (Some (Inr ()), tr1)))
          else uploadLargeFileByPath w c messageId fileName filePath contentType
                 (st_size stats) (tr @ [FsStat filePath]))"

text \<open>The body of \<^verbatim>\<open>for await (const attachment of attachments)\<close>.\<close>

definition uploadAttachment ::
  "nat \<Rightarrow> world \<Rightarrow> MailClient \<Rightarrow> string \<Rightarrow> attachment \<Rightarrow> event list \<Rightarrow> unit outcome" where
  "uploadAttachment fuel w c messageId a tr =
     (if \<not> truthy_content (att_content a) \<and> \<not> truthy (att_path a) \<and> \<not> truthy (att_href a)
      then (Some (Inr ()), tr)
      else
        let fileName = resolveFileName w a;
            contentType = getContentTypeFromFileName fileName
        in if truthy_content (att_content a) then
             upload_content fuel w c messageId fileName contentType
               (content_buffer (the (att_content a))) tr
           else if truthy (att_path a) then
             upload_path w c messageId fileName contentType (the (att_path a)) tr
           else uploadAttachmentFromUrl fuel w c messageId fileName (the (att_href a))
                  contentType tr)"

fun uploadAttachments_loop ::
  "nat \<Rightarrow> world \<Rightarrow> MailClient \<Rightarrow> string \<Rightarrow> attachment list \<Rightarrow> event list \<Rightarrow> unit outcome" where
  "uploadAttachments_loop fuel w c messageId [] tr = (Some (Inr ()), tr)"
| "uploadAttachments_loop fuel w c messageId (a # rest) tr =
     (case uploadAttachment fuel w c messageId a tr of
        (Some (Inr u), tr1) \<Rightarrow> uploadAttachments_loop fuel w c messageId rest tr1
      | (Some (Inl e), tr1) \<Rightarrow> (Some (Inl e), tr1)
      | (None, tr1) \<Rightarrow> (None, tr1))"

definition uploadAttachments ::
  "nat \<Rightarrow> world \<Rightarrow> MailClient \<Rightarrow> string \<Rightarrow> attachment list option \<Rightarrow> event list \<Rightarrow>
   unit outcome" where
  "uploadAttachments fuel w c messageId attachments tr =
     (case attachments of
        None \<Rightarrow> (Some (Inr ()), tr)
      | Some as \<Rightarrow> uploadAttachments_loop fuel w c messageId as tr)"

subsection \<open>Sending\<close>

record MailOptions =
  mail_subject :: string
  mail_to :: "recipients_input option"
  mail_cc :: "recipients_input option"
  mail_bcc :: "recipients_input option"
  mail_text :: "string option"
  mail_html :: "string option"
  mail_attachments :: "attachment list option"

definition draft_body :: "MailOptions \<Rightarrow> (string \<times> string) option" where
  "draft_body mail =
     (if truthy (mail_html mail) then Some (''html'', the (mail_html mail))
      else if truthy (mail_text mail) then Some (''text'', the (mail_text mail))
      else None)"

text \<open>The \<^verbatim>\<open>try\<close> block of \<^verbatim>\<open>sendMail\<close>.\<close>

definition sendMail_try ::
  "nat \<Rightarrow> world \<Rightarrow> MailClient \<Rightarrow> MailOptions \<Rightarrow> event list \<Rightarrow> (string \<times> string) outcome" where
  "sendMail_try fuel w c mail tr =
     (case buildRecipients (mail_to mail) of
        None \<Rightarrow> (Some (Inl NoRecipients), tr)
      | Some toRecipients \<Rightarrow>
          if length toRecipients = 0 then (Some (Inl NoRecipients), tr)
          else
            (case api_post w (''/users/'' @ sharedMailbox c @ ''/messages'')
                    (DraftMessage
                       \<lparr>dm_subject = mail_subject mail,
                        dm_toRecipients = Some toRecipients,
                        dm_ccRecipients = buildRecipients (mail_cc mail),
                        dm_bccRecipients = buildRecipients (mail_bcc mail),
                        dm_body = draft_body mail\<rparr>) tr of
               (Inl e, tr1) \<Rightarrow> (Some (Inl e), tr1)
             | (Inr draft, tr1) \<Rightarrow>
                 (case uploadAttachments fuel w c (reply_id draft) (mail_attachments mail) tr1 of
                    (Some (Inr u), tr2) \<Rightarrow>
                      (case api_post w
                              (''/users/'' @ sharedMailbox c @ ''/messages/'' @ reply_id draft @
                               ''/send'') EmptyBody tr2 of
                         (Inl e, tr3) \<Rightarrow> (Some (Inl e), tr3)
                       | (Inr r, tr3) \<Rightarrow>
                           (Some (Inr (reply_id draft, reply_internetMessageId draft)), tr3))
                  | (Some (Inl e), tr2) \<Rightarrow> (Some (Inl e), tr2)
                  | (None, tr2) \<Rightarrow> (None, tr2))))"

text \<open>
  The \<^verbatim>\<open>catch\<close> block: \<^verbatim>\<open>this.logger.error('Failed to send mail', error); throw error\<close>.
  Calling a hook that is \<^verbatim>\<open>undefined\<close> is a \<open>TypeError\<close>, and a hook that throws
  replaces the error; only after a hook that returns is the error thrown again.
\<close>

definition sendMail ::
  "nat \<Rightarrow> world \<Rightarrow> MailClient \<Rightarrow> MailOptions \<Rightarrow> event list \<Rightarrow> (string \<times> string) outcome" where
  "sendMail fuel w c mail tr =
     (case sendMail_try fuel w c mail tr of
        (Some (Inl error), tr1) \<Rightarrow>
          (case logger_error c of
             None \<Rightarrow> (Some (Inl TypeError), tr1)
           | Some h \<Rightarrow>
               (case h ''Failed to send mail'' error of
                  Some thrown \<Rightarrow>
                    (Some (Inl thrown), tr1 @ [LoggerError ''Failed to send mail'' error])
                | None \<Rightarrow>
                    (Some (Inl error), tr1 @ [LoggerError ''Failed to send mail'' error])))
      | (Some (Inr r), tr1) \<Rightarrow> (Some (Inr r), tr1)
      | (None, tr1) \<Rightarrow> (None, tr1))"

subsection \<open>Retrieval\<close>

datatype id_type = Graph | InternetMessageId

record getMailByIdOptions =
  opt_select :: "string list option"
  opt_includeAttachments :: "bool option"
  opt_idType :: "id_type option"

text \<open>\<^verbatim>\<open>select.join(',')\<close>\<close>

fun join_comma :: "string list \<Rightarrow> string" where
  "join_comma [] = []"
| "join_comma [x] = x"
| "join_comma (x # y # ys) = x @ '','' @ join_comma (y # ys)"

definition default_select :: string where
  "default_select =
     ''id,subject,bodyPreview,body,sentDateTime,receivedDateTime,from,toRecipients,ccRecipients,bccRecipients,hasAttachments''"

definition selectFields :: "string list option \<Rightarrow> string" where
  "selectFields sel =
     (case sel of
        None \<Rightarrow> default_select
      | Some xs \<Rightarrow> if length xs > 0 then join_comma xs else default_select)"

text \<open>
  The test \<^verbatim>\<open>/^<[^>]+@[^>]+>$/\<close>: between the brackets no closing bracket, and an at
  sign that is neither the first nor the last character.
\<close>

definition looksLikeInternetId :: "string \<Rightarrow> bool" where
  "looksLikeInternetId s \<longleftrightarrow>
     (case s of
        [] \<Rightarrow> False
      | c # cs \<Rightarrow>
          c = CHR ''<'' \<and> cs \<noteq> [] \<and> last cs = CHR ''>'' \<and>
          CHR ''>'' \<notin> set (butlast cs) \<and>
          CHR ''@'' \<in> set (butlast (tl (butlast cs))))"

text \<open>\<^verbatim>\<open>id.replace(/'/g, "''")\<close>\<close>

definition escape_quotes :: "string \<Rightarrow> string" where
  "escape_quotes s = concat (map (\<lambda>ch. if ch = CHR 0x27 then [CHR 0x27, CHR 0x27] else [ch]) s)"

text \<open>
  The attachment listing and the assignment \<^verbatim>\<open>message.attachments = attRes.value || []\<close>.
\<close>

definition with_attachments :: "world \<Rightarrow> string \<Rightarrow> json \<Rightarrow> event list \<Rightarrow> json outcome" where
  "with_attachments w p msg tr =
     (case graph_get w p None [] of
        None \<Rightarrow> (Some (Inl CollaboratorFailure), tr @ [GraphGet p None []])
      | Some JUndefined \<Rightarrow> (Some (Inl TypeError), tr @ [GraphGet p None []])
      | Some (JObject i fs v atts) \<Rightarrow>
          (case msg of
             JUndefined \<Rightarrow> (Some (Inl TypeError), tr @ [GraphGet p None []])
           | JObject mi mfs mv matts \<Rightarrow>
               (Some (Inr (JObject mi mfs mv (Some (case v of None \<Rightarrow> [] | Some xs \<Rightarrow> xs)))),
                tr @ [GraphGet p None []])))"

text \<open>\<^verbatim>\<open>list?.value?.[0]\<close>\<close>

definition first_value :: "json \<Rightarrow> json" where
  "first_value l =
     (case l of
        JUndefined \<Rightarrow> JUndefined
      | JObject i fs v atts \<Rightarrow> (case v of Some (m # ms) \<Rightarrow> m | _ \<Rightarrow> JUndefined))"

text \<open>\<^verbatim>\<open>message.id\<close> inside a path template.\<close>

definition json_id :: "json \<Rightarrow> string" where
  "json_id j = (case j of JUndefined \<Rightarrow> ''undefined'' | JObject i fs v atts \<Rightarrow> i)"

definition getMailById ::
  "world \<Rightarrow> MailClient \<Rightarrow> string \<Rightarrow> getMailByIdOptions \<Rightarrow> event list \<Rightarrow> json outcome" where
  "getMailById w c ident options tr =
     (let includeAttachments =
            (case opt_includeAttachments options of None \<Rightarrow> False | Some b \<Rightarrow> b)
      in if ident = [] then (Some (Inl IdRequired), tr)
         else if opt_idType options = Some InternetMessageId \<or> looksLikeInternetId ident then
           (let p = ''/users/'' @ sharedMailbox c @ ''/messages'';
                flt = ''internetMessageId eq '' @ [CHR 0x27] @ escape_quotes ident @ [CHR 0x27];
                sel = selectFields (opt_select options)
            in case graph_get w p (Some flt) sel of
                 None \<Rightarrow> (Some (Inl CollaboratorFailure), tr @ [GraphGet p (Some flt) sel])
               | Some l \<Rightarrow>
                   if first_value l = JUndefined
                   then (Some (Inl MessageNotFound), tr @ [GraphGet p (Some flt) sel])
                   else if includeAttachments then
                     with_attachments w
                       (''/users/'' @ sharedMailbox c @ ''/messages/'' @ json_id (first_value l) @
                        ''/attachments'')
                       (first_value l) (tr @ [GraphGet p (Some flt) sel])
                   else (Some (Inr (first_value l)), tr @ [GraphGet p (Some flt) sel]))
         else
           (let p = ''/users/'' @ sharedMailbox c @ ''/messages/'' @ ident;
                sel = selectFields (opt_select options)
            in case graph_get w p None sel of
                 None \<Rightarrow> (Some (Inl CollaboratorFailure), tr @ [GraphGet p None sel])
               | Some msg \<Rightarrow>
                   if includeAttachments then
                     with_attachments w (p @ ''/attachments'') msg (tr @ [GraphGet p None sel])
                   else (Some (Inr msg), tr @ [GraphGet p None sel])))"

subsection \<open>The collaborators of the test suite\<close>

text \<open>
  The mocks of the repository's tests (\<^verbatim>\<open>fakeClient\<close>, \<^verbatim>\<open>fetchMock\<close> and the mocked
  \<^verbatim>\<open>node:fs/promises\<close>) and the options that the tests construct the client with. They
  serve as concrete inputs below. The tests do not mock the URL parser; the last segment
  of the address stands for the base name of its path.
\<close>

definition mock_reply :: graph_reply where
  "mock_reply =
     \<lparr>reply_id = ''MSG-1'', reply_internetMessageId = ''<IM-MSG-1@exch.example.com>'',
      reply_uploadUrl = ''https://upload.example/session''\<rparr>"

definition mock_response :: http_response where
  "mock_response =
     \<lparr>res_ok = True, res_status = 200, res_content_length = None,
      res_arrayBuffer = Buffer_from_string ''abc'', res_body = None\<rparr>"

definition mock_world :: world where
  "mock_world =
     \<lparr>url_basename = (\<lambda>href. Some (split_pop CHR ''/'' href)),
      fs_stat = (\<lambda>p. Some \<lparr>st_isFile = True, st_size = 1024\<rparr>),
      fs_readFile = (\<lambda>p. Some (Buffer_from_string ''file'')),
      fs_open = (\<lambda>p highWaterMark. Some []),
      fetch_head = (\<lambda>url. Some (mock_response\<lparr>res_content_length := Some 10\<rparr>)),
      fetch_get = (\<lambda>url. Some mock_response),
      fetch_put = (\<lambda>url s e t b. Some (mock_response\<lparr>res_status := 202\<rparr>)),
      graph_post = (\<lambda>p b. Some mock_reply),
      graph_get = (\<lambda>p flt sel. Some (JObject [] [] None None))\<rparr>"

definition mock_client :: MailClient where
  "mock_client =
     newMailClient
       \<lparr>opt_sharedMailbox = ''shared@example.com'',
        opt_attachmentUploadOptions =
          Some \<lparr>cfg_largeFileThreshold = Some 1024, cfg_chunkSize = Some (320 * 1024)\<rparr>,
        opt_logger = None\<rparr>"

text \<open>A logging hook that throws.\<close>

definition failingLogger :: hook where
  "failingLogger message e = Some CollaboratorFailure"

text \<open>The mail of the test \<^verbatim>\<open>sendMail throws when no "to" recipients\<close>.\<close>

definition mail_without_to :: MailOptions where
  "mail_without_to =
     \<lparr>mail_subject = ''S'', mail_to = Some (Single []), mail_cc = None, mail_bcc = None,
      mail_text = Some ''x'', mail_html = None, mail_attachments = None\<rparr>"

subsection \<open>Reading the record of calls\<close>

text \<open>The byte ranges of the PUT calls of a record, in the order they were sent.\<close>

fun put_ranges :: "event list \<Rightarrow> (int \<times> int) list" where
  "put_ranges [] = []"
| "put_ranges (FetchPut url s e t b # evs) = (s, e) # put_ranges evs"
| "put_ranges (ev # evs) = put_ranges evs"

definition is_put :: "event \<Rightarrow> bool" where
  "is_put ev = (case ev of FetchPut url s e t b \<Rightarrow> True | _ \<Rightarrow> False)"

text \<open>
  A list of ranges is contiguous from \<open>s\<close> when the first one starts at \<open>s\<close> and each
  further one starts one past the end of the one before it.
\<close>

fun contiguous_from :: "int \<Rightarrow> (int \<times> int) list \<Rightarrow> bool" where
  "contiguous_from s [] = True"
| "contiguous_from s ((a, b) # rs) = (a = s \<and> contiguous_from (b + 1) rs)"

text \<open>Where the range after a contiguous list of ranges has to start.\<close>

fun next_start :: "int \<Rightarrow> (int \<times> int) list \<Rightarrow> int" where
  "next_start s [] = s"
| "next_start s ((a, b) # rs) = next_start (b + 1) rs"

text \<open>
  A PUT is accepted when \<^verbatim>\<open>fetch\<close> resolves and the status check after it passes.
\<close>

definition accepted :: "http_response option \<Rightarrow> bool" where
  "accepted x =
     (case x of
        None \<Rightarrow> False
      | Some res \<Rightarrow> res_ok res \<or> res_status res = 202 \<or> res_status res = 201 \<or> res_status res = 200)"

section \<open>Properties\<close>

subsection \<open>Auxiliary facts\<close>

lemma mock_client_simps:
  "sharedMailbox mock_client = ''shared@example.com''"
  "largeFileThreshold (attachmentUploadOptions mock_client) = 1024"
  "chunkSize (attachmentUploadOptions mock_client) = 327680"
  "logger_error mock_client = Some defaultLogger"
  by (simp_all add: mock_client_def newMailClient_def mergeOptions_def normalizeChunkSize_def
      js_rem_def base_def mergeLogger_def)

lemma is_http_url_nonempty: "is_http_url href \<Longrightarrow> href \<noteq> []"
  by (auto simp: is_http_url_def toLowerCase_def)

lemma put_range_snd: "snd (put_range w u s e t b f tr) = tr @ [FetchPut u s e t b]"
  by (auto simp: put_range_def split: option.splits if_splits)

lemma uploadLargeContent_loop_puts:
  "\<exists>evs. snd (uploadLargeContent_loop fuel w u cs content offset tr) = tr @ evs \<and>
     (\<forall>ev \<in> set evs. is_put ev)"
proof (induction fuel arbitrary: offset tr)
  case 0
  then show ?case by simp
next
  case (Suc fuel)
  show ?case
  proof (cases "offset < int (length content)")
    case False
    then show ?thesis by simp
  next
    case True
    let ?e = "min (offset + cs) (int (length content))"
    let ?p = "put_range w u offset (?e - 1) (int (length content)) (subarray content offset ?e) ChunkUploadFailed tr"
    have s: "snd ?p = tr @ [FetchPut u offset (?e - 1) (int (length content)) (subarray content offset ?e)]"
      by (rule put_range_snd)
    show ?thesis
    proof (cases "fst ?p")
      case (Inl x)
      then show ?thesis using True s
        by (cases ?p) (auto simp: Let_def is_put_def)
    next
      case (Inr y)
      obtain evs where "snd (uploadLargeContent_loop fuel w u cs content ?e (snd ?p)) = snd ?p @ evs"
        and "\<forall>ev \<in> set evs. is_put ev"
        using Suc.IH by blast
      then show ?thesis using True s Inr
        by (cases ?p) (auto simp: Let_def is_put_def)
    qed
  qed
qed

lemma put_ranges_append: "put_ranges (xs @ ys) = put_ranges xs @ put_ranges ys"
  by (induction xs rule: put_ranges.induct) simp_all

lemma contiguous_from_append:
  "contiguous_from s (rs @ rs') \<longleftrightarrow> contiguous_from s rs \<and> contiguous_from (next_start s rs) rs'"
  by (induction s rs rule: contiguous_from.induct) auto

lemma next_start_append: "next_start s (rs @ rs') = next_start (next_start s rs) rs'"
  by (induction s rs rule: next_start.induct) auto

lemma next_start_last: "rs \<noteq> [] \<Longrightarrow> next_start s rs = snd (last rs) + 1"
  by (induction s rs rule: next_start.induct) auto

lemma contiguous_bounds:
  "contiguous_from s rs \<Longrightarrow> \<forall>(a, b) \<in> set rs. a \<le> b \<Longrightarrow>
     s \<le> next_start s rs \<and> (\<forall>(a, b) \<in> set rs. s \<le> a \<and> b < next_start s rs)"
proof (induction s rs rule: contiguous_from.induct)
  case (1 s)
  then show ?case by simp
next
  case (2 s a b rs)
  then have "b + 1 \<le> next_start (b + 1) rs"
    and "\<forall>(a', b') \<in> set rs. b + 1 \<le> a' \<and> b' < next_start (b + 1) rs"
    by auto
  with 2 show ?case by fastforce
qed

lemma contiguous_starts_increasing:
  "contiguous_from s rs \<Longrightarrow> \<forall>(a, b) \<in> set rs. a \<le> b \<Longrightarrow> sorted_wrt (<) (map fst rs)"
proof (induction s rs rule: contiguous_from.induct)
  case (1 s)
  then show ?case by simp
next
  case (2 s a b rs)
  then have "\<forall>(a', b') \<in> set rs. b + 1 \<le> a'"
    using contiguous_bounds [of "b + 1" rs] by auto
  with 2 show ?case by fastforce
qed

lemma contiguous_ends_increasing:
  "contiguous_from s rs \<Longrightarrow> \<forall>(a, b) \<in> set rs. a \<le> b \<Longrightarrow> sorted_wrt (<) (map snd rs)"
proof (induction s rs rule: contiguous_from.induct)
  case (1 s)
  then show ?case by simp
next
  case (2 s a b rs)
  then have "\<forall>(a', b') \<in> set rs. b + 1 \<le> a' \<and> a' \<le> b'"
    using contiguous_bounds [of "b + 1" rs] by auto
  with 2 show ?case by fastforce
qed

lemma contiguous_union:
  "contiguous_from s rs \<Longrightarrow> \<forall>(a, b) \<in> set rs. a \<le> b \<Longrightarrow>
     (\<Union>(a, b) \<in> set rs. {a..b}) = {s..next_start s rs - 1}"
proof (induction s rs rule: contiguous_from.induct)
  case (1 s)
  then show ?case by simp
next
  case (2 s a b rs)
  then have ih: "(\<Union>(a, b) \<in> set rs. {a..b}) = {b + 1..next_start (b + 1) rs - 1}"
    and le: "b + 1 \<le> next_start (b + 1) rs" and ab: "a = s" "a \<le> b"
    using contiguous_bounds [of "b + 1" rs] by auto
  have "(\<Union>(a, b) \<in> set ((a, b) # rs). {a..b}) = {s..b} \<union> {b + 1..next_start (b + 1) rs - 1}"
    using ih ab by simp
  also have "\<dots> = {s..next_start (b + 1) rs - 1}"
    using le ab by auto
  finally show ?case by simp
qed

lemma ceil_div_one: "0 < C \<Longrightarrow> 0 < d \<Longrightarrow> d \<le> C \<Longrightarrow> (d + C - 1) div C = (1::int)"
proof -
  assume h: "0 < C" "0 < d" "d \<le> C"
  have "(d + C - 1) div C = ((d - 1) + C) div C" by (simp add: algebra_simps)
  also have "\<dots> = (d - 1) div C + 1" using h by simp
  also have "(d - 1) div C = 0" using h by (simp add: div_pos_pos_trivial)
  finally show ?thesis by simp
qed

lemma ceil_div_step: "0 < C \<Longrightarrow> (d - C + C - 1) div C + 1 = (d + C - 1) div (C::int)"
proof -
  assume h: "0 < C"
  have "(d + C - 1) div C = ((d - 1) + C) div C" by (simp add: algebra_simps)
  also have "\<dots> = (d - 1) div C + 1" using h by simp
  finally show ?thesis by simp
qed

lemma ceiling_div: 
  assumes "0 < C"
  shows "\<lceil>real_of_int T / real_of_int C\<rceil> = (T + C - 1) div C"
proof -
  have "- (real_of_int T / real_of_int C) = real_of_int (- T) / real_of_int C"
    by simp
  then have "\<lceil>real_of_int T / real_of_int C\<rceil> = - ((- T) div C)"
    unfolding ceiling_def by (simp only: floor_divide_of_int_eq)
  also have "\<dots> = (T + C - 1) div C"
  proof (cases "T mod C = 0")
    case True
    then obtain q where q: "T = q * C" by (metis mod_eq_0_iff_dvd dvd_div_mult_self)
    have "(q * C + C - 1) div C = ((C - 1) + q * C) div C" by (simp add: algebra_simps)
    also have "\<dots> = (C - 1) div C + q" using assms by (simp del: add_diff_eq)
    also have "(C - 1) div C = 0" using assms by (simp add: div_pos_pos_trivial)
    finally have 1: "(q * C + C - 1) div C = q" by simp
    have "((- q) * C) div C = - q"
      by (rule nonzero_mult_div_cancel_right) (use assms in simp)
    then have "(- (q * C)) div C = - q"
      by (simp only: mult_minus_left)
    then show ?thesis using q 1 by simp
  next
    case False
    have "0 \<le> T mod C" and m2: "T mod C < C"
      using assms by simp_all
    with False have m: "0 < T mod C" "T mod C < C"
      by linarith+
    have eq: "T + C - 1 = (T mod C + C - 1) + (T div C) * C"
      using div_mult_mod_eq [of T C] by (simp add: algebra_simps)
    have "(T + C - 1) div C = ((T mod C + C - 1) + (T div C) * C) div C"
      by (simp only: eq [symmetric])
    also have "\<dots> = (T mod C + C - 1) div C + T div C" using assms by (simp del: add_diff_eq)
    also have "(T mod C + C - 1) div C = 1" using ceil_div_one [OF assms m(1)] m(2) by simp
    finally show ?thesis using False assms by (simp add: zdiv_zminus1_eq_if)
  qed
  finally show ?thesis .
qed

lemma put_range_accepted:
  "accepted (fetch_put w u s e t b) \<Longrightarrow>
     put_range w u s e t b f tr = (Inr (), tr @ [FetchPut u s e t b])"
  by (auto simp: put_range_def accepted_def split: option.splits)

lemma put_range_disj:
  "(\<exists>x. put_range w u s e t b f tr = (Inl x, tr @ [FetchPut u s e t b])) \<or>
   put_range w u s e t b f tr = (Inr (), tr @ [FetchPut u s e t b])"
  by (simp add: put_range_def split: option.splits)

lemma put_range_fst_cases:
  obtains x where "put_range w u s e t b f tr = (Inl x, tr @ [FetchPut u s e t b])"
  | "put_range w u s e t b f tr = (Inr (), tr @ [FetchPut u s e t b])"
  using put_range_disj [of w u s e t b f tr] by blast

lemma buffer_loop_ranges:
  assumes "0 < C"
  shows "\<exists>rs. put_ranges (snd (uploadLargeContent_loop fuel w u C content offset tr)) =
             put_ranges tr @ rs \<and>
           contiguous_from offset rs \<and> (\<forall>(a, b) \<in> set rs. a \<le> b) \<and>
           next_start offset rs \<le> max offset (int (length content)) \<and>
           (fst (uploadLargeContent_loop fuel w u C content offset tr) = Some (Inr ()) \<longrightarrow>
              next_start offset rs = max offset (int (length content)) \<and>
              int (length rs) =
                (if offset < int (length content)
                 then (int (length content) - offset + C - 1) div C else 0))"
proof (induction fuel arbitrary: offset tr)
  case 0
  show ?case by (rule exI [of _ "[]"]) simp
next
  case (Suc fuel)
  let ?len = "int (length content)"
  show ?case
  proof (cases "offset < ?len")
    case False
    then show ?thesis by (intro exI [of _ "[]"]) simp
  next
    case True
    let ?e = "min (offset + C) ?len"
    let ?ev = "FetchPut u offset (?e - 1) ?len (subarray content offset ?e)"
    have e: "offset < ?e" "?e \<le> ?len" using True assms by auto
    show ?thesis
    proof (cases rule: put_range_fst_cases
        [of w u offset "?e - 1" ?len "subarray content offset ?e" ChunkUploadFailed tr])
      case (1 x)
      then have "uploadLargeContent_loop (Suc fuel) w u C content offset tr =
                   (Some (Inl x), tr @ [?ev])"
        using True by (simp add: Let_def)
      then show ?thesis using e
        by (intro exI [of _ "[(offset, ?e - 1)]"]) (simp add: put_ranges_append)
    next
      case 2
      then have eq: "uploadLargeContent_loop (Suc fuel) w u C content offset tr =
                   uploadLargeContent_loop fuel w u C content ?e (tr @ [?ev])"
        using True by (simp add: Let_def)
      obtain rs where rs:
        "put_ranges (snd (uploadLargeContent_loop fuel w u C content ?e (tr @ [?ev]))) =
           put_ranges (tr @ [?ev]) @ rs"
        "contiguous_from ?e rs" "\<forall>(a, b) \<in> set rs. a \<le> b"
        "next_start ?e rs \<le> max ?e ?len"
        "fst (uploadLargeContent_loop fuel w u C content ?e (tr @ [?ev])) = Some (Inr ()) \<longrightarrow>
              next_start ?e rs = max ?e ?len \<and>
              int (length rs) = (if ?e < ?len then (?len - ?e + C - 1) div C else 0)"
        using Suc.IH [of ?e "tr @ [?ev]"] by blast
      have cnt: "1 + (if ?e < ?len then (?len - ?e + C - 1) div C else 0) =
                 (?len - offset + C - 1) div C"
      proof (cases "offset + C < ?len")
        case True
        then show ?thesis
          using ceil_div_step [OF assms, of "?len - offset"] by (simp add: algebra_simps)
      next
        case False
        then show ?thesis
          using ceil_div_one [OF assms, of "?len - offset"] \<open>offset < ?len\<close> by simp
      qed
      show ?thesis
        unfolding eq
        using rs e cnt True
        by (intro exI [of _ "(offset, ?e - 1) # rs"]) (auto simp: put_ranges_append)
    qed
  qed
qed

lemma buffer_loop_completes:
  assumes "0 < C" and "\<And>s e t b. accepted (fetch_put w u s e t b)"
  shows "int (length content) - offset \<le> int fuel * C \<Longrightarrow>
         fst (uploadLargeContent_loop fuel w u C content offset tr) = Some (Inr ())"
proof (induction fuel arbitrary: offset tr)
  case 0
  then show ?case by simp
next
  case (Suc fuel)
  show ?case
  proof (cases "offset < int (length content)")
    case False
    then show ?thesis by simp
  next
    case True
    let ?e = "min (offset + C) (int (length content))"
    have "int (length content) - ?e \<le> int fuel * C"
      using Suc.prems assms(1) by (auto simp: algebra_simps min_def)
    then show ?thesis
      using True Suc.IH put_range_accepted [OF assms(2)] by (simp add: Let_def)
  qed
qed

lemma subarray_head:
  "0 < C \<Longrightarrow> C \<le> int (length p) \<Longrightarrow> subarray p 0 C = take (nat C) p"
  by (simp add: subarray_def adjustOffset_def Let_def)

lemma subarray_tail:
  "0 < C \<Longrightarrow> C \<le> int (length p) \<Longrightarrow> subarray p C (int (length p)) = drop (nat C) p"
  by (auto simp: subarray_def adjustOffset_def Let_def)

lemma peel_loop_ranges:
  assumes "0 < C"
  shows "\<exists>rs. put_ranges (snd (stream_peel_loop fuel w u C sz offset pending tr)) =
             put_ranges tr @ rs \<and>
           contiguous_from offset rs \<and> (\<forall>(a, b) \<in> set rs. a \<le> b) \<and>
           (\<forall>offset' pending'.
              fst (stream_peel_loop fuel w u C sz offset pending tr) =
                Some (Inr (offset', pending')) \<longrightarrow>
              next_start offset rs = offset' \<and>
              offset' + int (length pending') = offset + int (length pending))"
proof (induction fuel arbitrary: offset pending tr)
  case 0
  show ?case by (rule exI [of _ "[]"]) simp
next
  case (Suc fuel)
  show ?case
  proof (cases "C \<le> int (length pending)")
    case False
    then show ?thesis by (intro exI [of _ "[]"]) simp
  next
    case True
    let ?send = "take (nat C) pending"
    let ?rest = "drop (nat C) pending"
    let ?ev = "FetchPut u offset (offset + C - 1) sz ?send"
    have hd: "subarray pending 0 C = ?send" and len: "int (length ?send) = C"
      using True assms by (simp_all add: subarray_head)
    have tl: "subarray pending C (int (length pending)) = ?rest"
      using True assms by (simp add: subarray_tail)
    show ?thesis
    proof (cases rule: put_range_fst_cases
        [of w u offset "offset + C - 1" sz ?send ChunkUploadFailed tr])
      case (1 x)
      then have "stream_peel_loop (Suc fuel) w u C sz offset pending tr =
                   (Some (Inl x), tr @ [?ev])"
        using True by (simp add: Let_def hd len del: length_take)
      then show ?thesis using assms
        by (intro exI [of _ "[(offset, offset + C - 1)]"]) (simp add: put_ranges_append)
    next
      case 2
      then have eq: "stream_peel_loop (Suc fuel) w u C sz offset pending tr =
                   stream_peel_loop fuel w u C sz (offset + C) ?rest (tr @ [?ev])"
        using True by (simp add: Let_def hd len tl del: length_take)
      obtain rs where rs:
        "put_ranges (snd (stream_peel_loop fuel w u C sz (offset + C) ?rest (tr @ [?ev]))) =
           put_ranges (tr @ [?ev]) @ rs"
        "contiguous_from (offset + C) rs" "\<forall>(a, b) \<in> set rs. a \<le> b"
        "\<forall>offset' pending'.
           fst (stream_peel_loop fuel w u C sz (offset + C) ?rest (tr @ [?ev])) =
             Some (Inr (offset', pending')) \<longrightarrow>
           next_start (offset + C) rs = offset' \<and>
           offset' + int (length pending') = offset + C + int (length ?rest)"
        using Suc.IH [of "offset + C" ?rest "tr @ [?ev]"] by blast
      have l: "C + int (length ?rest) = int (length pending)"
        using True assms by simp
      show ?thesis
        unfolding eq
        using rs assms l
        by (intro exI [of _ "(offset, offset + C - 1) # rs"])
          (auto simp: put_ranges_append simp del: length_drop)
    qed
  qed
qed

lemma read_loop_ranges:
  assumes "0 < C"
  shows "\<exists>rs. put_ranges (snd (stream_read_loop fuel w u C sz stream offset pending tr)) =
             put_ranges tr @ rs \<and>
           contiguous_from offset rs \<and> (\<forall>(a, b) \<in> set rs. a \<le> b) \<and>
           (\<forall>offset' pending'.
              fst (stream_read_loop fuel w u C sz stream offset pending tr) =
                Some (Inr (offset', pending')) \<longrightarrow>
              next_start offset rs = offset' \<and>
              offset' + int (length pending') =
                offset + int (length pending) + (\<Sum>ch\<leftarrow>stream. int (length ch)))"
proof (induction stream arbitrary: offset pending tr)
  case Nil
  show ?case by (rule exI [of _ "[]"]) simp
next
  case (Cons chunkBuf rest)
  let ?p = "if pending = [] then chunkBuf else pending @ chunkBuf"
  let ?peel = "stream_peel_loop fuel w u C sz offset ?p tr"
  have lp: "int (length ?p) = int (length pending) + int (length chunkBuf)" by simp
  obtain rs1 where rs1:
    "put_ranges (snd ?peel) = put_ranges tr @ rs1"
    "contiguous_from offset rs1" "\<forall>(a, b) \<in> set rs1. a \<le> b"
    "\<forall>offset' pending'. fst ?peel = Some (Inr (offset', pending')) \<longrightarrow>
       next_start offset rs1 = offset' \<and>
       offset' + int (length pending') = offset + int (length ?p)"
    using peel_loop_ranges [OF assms, of fuel w u sz offset ?p tr] by blast
  show ?case
  proof (cases "fst ?peel")
    case None
    then have "stream_read_loop fuel w u C sz (chunkBuf # rest) offset pending tr =
                 (None, snd ?peel)"
      by (cases ?peel) simp
    then show ?thesis using rs1 by (intro exI [of _ rs1]) simp
  next
    case (Some r)
    show ?thesis
    proof (cases r)
      case (Inl e)
      then have "stream_read_loop fuel w u C sz (chunkBuf # rest) offset pending tr =
                 (Some (Inl e), snd ?peel)"
        using Some by (cases ?peel) simp
      then show ?thesis using rs1 by (intro exI [of _ rs1]) simp
    next
      case (Inr op)
      obtain offset2 pending2 where op: "op = (offset2, pending2)" by (cases op)
      have f: "fst ?peel = Some (Inr (offset2, pending2))" using Some Inr op by simp
      then have eq: "stream_read_loop fuel w u C sz (chunkBuf # rest) offset pending tr =
                 stream_read_loop fuel w u C sz rest offset2 pending2 (snd ?peel)"
        by (cases ?peel) simp
      have n1: "next_start offset rs1 = offset2"
        and l1: "offset2 + int (length pending2) = offset + int (length ?p)"
        using rs1(4) f by blast+
      obtain rs2 where rs2:
        "put_ranges (snd (stream_read_loop fuel w u C sz rest offset2 pending2 (snd ?peel))) =
           put_ranges (snd ?peel) @ rs2"
        "contiguous_from offset2 rs2" "\<forall>(a, b) \<in> set rs2. a \<le> b"
        "\<forall>offset' pending'.
           fst (stream_read_loop fuel w u C sz rest offset2 pending2 (snd ?peel)) =
             Some (Inr (offset', pending')) \<longrightarrow>
           next_start offset2 rs2 = offset' \<and>
           offset' + int (length pending') =
             offset2 + int (length pending2) + (\<Sum>ch\<leftarrow>rest. int (length ch))"
        using Cons.IH [of offset2 pending2 "snd ?peel"] by blast
      show ?thesis
        unfolding eq
        using rs1(1-3) rs2 n1 l1 lp
        by (intro exI [of _ "rs1 @ rs2"])
          (auto simp: contiguous_from_append next_start_append)
    qed
  qed
qed

lemma path_loop_ranges:
  "\<exists>rs. put_ranges (snd (uploadLargeFileByPath_loop w u fileSize chunks offset tr)) =
          put_ranges tr @ rs \<and>
        contiguous_from offset rs \<and>
        ([] \<notin> set chunks \<longrightarrow> (\<forall>(a, b) \<in> set rs. a \<le> b)) \<and>
        (fst (uploadLargeFileByPath_loop w u fileSize chunks offset tr) = Inr () \<longrightarrow>
           next_start offset rs = offset + (\<Sum>ch\<leftarrow>chunks. int (length ch)))"
proof (induction chunks arbitrary: offset tr)
  case Nil
  show ?case by (rule exI [of _ "[]"]) simp
next
  case (Cons chunkData rest)
  let ?e = "offset + int (length chunkData) - 1"
  let ?ev = "FetchPut u offset ?e fileSize chunkData"
  show ?case
  proof (cases rule: put_range_fst_cases
      [of w u offset ?e fileSize chunkData ChunkUploadFailed tr])
    case (1 x)
    then have "uploadLargeFileByPath_loop w u fileSize (chunkData # rest) offset tr =
                 (Inl x, tr @ [?ev])"
      by (simp add: Let_def)
    then show ?thesis
      by (intro exI [of _ "[(offset, ?e)]"]) (auto simp: put_ranges_append)
  next
    case 2
    then have eq: "uploadLargeFileByPath_loop w u fileSize (chunkData # rest) offset tr =
                 uploadLargeFileByPath_loop w u fileSize rest
                   (offset + int (length chunkData)) (tr @ [?ev])"
      by (simp add: Let_def)
    obtain rs where rs:
      "put_ranges (snd (uploadLargeFileByPath_loop w u fileSize rest
           (offset + int (length chunkData)) (tr @ [?ev]))) = put_ranges (tr @ [?ev]) @ rs"
      "contiguous_from (offset + int (length chunkData)) rs"
      "[] \<notin> set rest \<longrightarrow> (\<forall>(a, b) \<in> set rs. a \<le> b)"
      "fst (uploadLargeFileByPath_loop w u fileSize rest
           (offset + int (length chunkData)) (tr @ [?ev])) = Inr () \<longrightarrow>
         next_start (offset + int (length chunkData)) rs =
           offset + int (length chunkData) + (\<Sum>ch\<leftarrow>rest. int (length ch))"
      using Cons.IH [of "offset + int (length chunkData)" "tr @ [?ev]"] by blast
    have ne: "chunkData \<noteq> [] \<Longrightarrow> offset \<le> ?e"
      by (cases chunkData) simp_all
    show ?thesis
      unfolding eq
      using rs ne
      by (intro exI [of _ "(offset, ?e) # rs"]) (auto simp: put_ranges_append)
  qed
qed

lemma put_ranges_GraphPost [simp]: "put_ranges (tr @ [GraphPost p x]) = put_ranges tr"
  by (simp add: put_ranges_append)

lemma put_ranges_FsOpen [simp]: "put_ranges (tr @ [FsOpen p h]) = put_ranges tr"
  by (simp add: put_ranges_append)

lemma put_ranges_FsClose [simp]: "put_ranges (tr @ [FsClose p]) = put_ranges tr"
  by (simp add: put_ranges_append)

lemma api_post_cases:
  obtains "api_post w p x tr = (Inl CollaboratorFailure, tr @ [GraphPost p x])"
  | r where "api_post w p x tr = (Inr r, tr @ [GraphPost p x])"
  by (cases "graph_post w p x") (simp_all add: api_post_def)

lemma starts_increasing_snoc:
  assumes "contiguous_from s rs" "\<forall>(a, b) \<in> set rs. a \<le> b"
  shows "sorted_wrt (<) (map fst (rs @ [(next_start s rs, e)]))"
proof -
  have "\<forall>(a, b) \<in> set rs. a < next_start s rs"
    using contiguous_bounds [OF assms] assms(2) by fastforce
  then show ?thesis
    using contiguous_starts_increasing [OF assms]
    by (auto simp: sorted_wrt_append)
qed

lemma uploadLargeContent_ranges:
  assumes "0 < normalizeChunkSize (chunkSize (attachmentUploadOptions c))"
  shows "\<exists>rs. put_ranges (snd (uploadLargeContent fuel w c messageId fileName content contentType tr)) =
             put_ranges tr @ rs \<and>
           contiguous_from 0 rs \<and> sorted_wrt (<) (map fst rs) \<and>
           (fst (uploadLargeContent fuel w c messageId fileName content contentType tr) =
              Some (Inr ()) \<and> rs \<noteq> [] \<longrightarrow>
            snd (last rs) = int (length content) - 1)"
proof (cases "int (length content) > MAX_ATTACHMENT_SIZE")
  case True
  then show ?thesis
    by (intro exI [of _ "[]"]) (simp add: uploadLargeContent_def)
next
  case False
  let ?p = "session_path c messageId"
  let ?x = "AttachmentItem fileName (int (length content)) contentType"
  show ?thesis
  proof (cases rule: api_post_cases [of w ?p ?x tr])
    case 1
    then show ?thesis using False
      by (intro exI [of _ "[]"]) (simp add: uploadLargeContent_def)
  next
    case (2 session)
    let ?C = "normalizeChunkSize (chunkSize (attachmentUploadOptions c))"
    let ?l = "uploadLargeContent_loop fuel w (reply_uploadUrl session) ?C content 0
                (tr @ [GraphPost ?p ?x])"
    have eq: "uploadLargeContent fuel w c messageId fileName content contentType tr = ?l"
      using False 2 by (simp add: uploadLargeContent_def)
    obtain rs where rs: "put_ranges (snd ?l) = put_ranges (tr @ [GraphPost ?p ?x]) @ rs"
      "contiguous_from 0 rs" "\<forall>(a, b) \<in> set rs. a \<le> b"
      "fst ?l = Some (Inr ()) \<longrightarrow> next_start 0 rs = max 0 (int (length content))"
      using buffer_loop_ranges [OF assms, of fuel w "reply_uploadUrl session" content 0
          "tr @ [GraphPost ?p ?x]"] by blast
    have "snd (last rs) = int (length content) - 1" if "fst ?l = Some (Inr ())" "rs \<noteq> []"
      using rs(4) that next_start_last [of rs 0] by simp
    then show ?thesis
      unfolding eq using rs contiguous_starts_increasing [OF rs(2,3)]
      by (intro exI [of _ rs]) simp
  qed
qed

lemma uploadLargeFileByPath_ranges:
  assumes "fs_open w filePath (normalizeChunkSize (chunkSize (attachmentUploadOptions c))) =
             Some chunks"
  shows "\<exists>rs. put_ranges (snd (uploadLargeFileByPath w c messageId fileName filePath contentType
                  fileSize tr)) = put_ranges tr @ rs \<and>
           contiguous_from 0 rs \<and>
           ([] \<notin> set chunks \<longrightarrow> sorted_wrt (<) (map fst rs)) \<and>
           (fst (uploadLargeFileByPath w c messageId fileName filePath contentType fileSize tr) =
              Some (Inr ()) \<and> rs \<noteq> [] \<and> (\<Sum>ch\<leftarrow>chunks. int (length ch)) = fileSize \<longrightarrow>
            snd (last rs) = fileSize - 1)"
proof (cases "fileSize > MAX_ATTACHMENT_SIZE")
  case True
  then show ?thesis
    by (intro exI [of _ "[]"]) (simp add: uploadLargeFileByPath_def)
next
  case False
  let ?p = "session_path c messageId"
  let ?x = "AttachmentItem fileName fileSize contentType"
  show ?thesis
  proof (cases rule: api_post_cases [of w ?p ?x tr])
    case 1
    then show ?thesis using False
      by (intro exI [of _ "[]"]) (simp add: uploadLargeFileByPath_def)
  next
    case (2 session)
    let ?C = "normalizeChunkSize (chunkSize (attachmentUploadOptions c))"
    let ?tr = "tr @ [GraphPost ?p ?x] @ [FsOpen filePath ?C]"
    let ?l = "uploadLargeFileByPath_loop w (reply_uploadUrl session) fileSize chunks 0 ?tr"
    obtain rs where rs: "put_ranges (snd ?l) = put_ranges ?tr @ rs"
      "contiguous_from 0 rs" "[] \<notin> set chunks \<longrightarrow> (\<forall>(a, b) \<in> set rs. a \<le> b)"
      "fst ?l = Inr () \<longrightarrow> next_start 0 rs = 0 + (\<Sum>ch\<leftarrow>chunks. int (length ch))"
      using path_loop_ranges [of w "reply_uploadUrl session" fileSize chunks 0 ?tr] by blast
    have eq: "uploadLargeFileByPath w c messageId fileName filePath contentType fileSize tr =
                (case ?l of (Inl e, tr2) \<Rightarrow> (Some (Inl e), tr2)
                          | (Inr u, tr2) \<Rightarrow> (Some (Inr ()), tr2 @ [FsClose filePath]))"
      using False 2 assms by (simp add: uploadLargeFileByPath_def)
    have pr: "put_ranges (snd (uploadLargeFileByPath w c messageId fileName filePath contentType
                fileSize tr)) = put_ranges tr @ rs"
      unfolding eq using rs(1) by (cases ?l) (auto split: sum.splits simp: put_ranges_append)
    have ok: "fst ?l = Inr ()"
      if "fst (uploadLargeFileByPath w c messageId fileName filePath contentType fileSize tr) =
            Some (Inr ())"
      using that unfolding eq by (cases ?l) (auto split: sum.splits)
    have "snd (last rs) = fileSize - 1"
      if "fst (uploadLargeFileByPath w c messageId fileName filePath contentType fileSize tr) =
            Some (Inr ())" "rs \<noteq> []" "(\<Sum>ch\<leftarrow>chunks. int (length ch)) = fileSize"
      using rs(4) ok that next_start_last [of rs 0] by simp
    moreover have "sorted_wrt (<) (map fst rs)" if "[] \<notin> set chunks"
      using contiguous_starts_increasing [OF rs(2)] rs(3) that by blast
    ultimately show ?thesis
      using pr rs(2) by (intro exI [of _ rs]) simp
  qed
qed

lemma upload_url_stream_ranges:
  assumes "0 < C"
  shows "\<exists>rs. put_ranges (snd (upload_url_stream fuel w c messageId fileName contentType C sz
                  stream tr)) = put_ranges tr @ rs \<and>
           contiguous_from 0 rs \<and> sorted_wrt (<) (map fst rs) \<and>
           (fst (upload_url_stream fuel w c messageId fileName contentType C sz stream tr) =
              Some (Inr ()) \<and> rs \<noteq> [] \<and> (\<Sum>ch\<leftarrow>stream. int (length ch)) = sz \<longrightarrow>
            snd (last rs) = sz - 1)"
proof -
  let ?p = "session_path c messageId"
  let ?x = "AttachmentItem fileName sz contentType"
  show ?thesis
  proof (cases rule: api_post_cases [of w ?p ?x tr])
    case 1
    then show ?thesis
      by (intro exI [of _ "[]"]) (simp add: upload_url_stream_def)
  next
    case (2 session)
    let ?u = "reply_uploadUrl session"
    let ?l = "stream_read_loop fuel w ?u C sz stream 0 [] (tr @ [GraphPost ?p ?x])"
    obtain rs where rs: "put_ranges (snd ?l) = put_ranges (tr @ [GraphPost ?p ?x]) @ rs"
      "contiguous_from 0 rs" "\<forall>(a, b) \<in> set rs. a \<le> b"
      "\<forall>offset' pending'. fst ?l = Some (Inr (offset', pending')) \<longrightarrow>
         next_start 0 rs = offset' \<and>
         offset' + int (length pending') = 0 + int (length ([]::buffer)) +
           (\<Sum>ch\<leftarrow>stream. int (length ch))"
      using read_loop_ranges [OF assms, of fuel w ?u sz stream 0 "[]" "tr @ [GraphPost ?p ?x]"]
      by blast
    have inc: "sorted_wrt (<) (map fst rs)"
      using contiguous_starts_increasing [OF rs(2,3)] .
    have eq: "upload_url_stream fuel w c messageId fileName contentType C sz stream tr =
                (case ?l of
                   (Some (Inr (offset, pending)), tr2) \<Rightarrow>
                     if length pending > 0 then
                       (case put_range w ?u offset (sz - 1) sz pending FinalChunkUploadFailed tr2 of
                          (Inl e, tr3) \<Rightarrow> (Some (Inl e), tr3)
                        | (Inr u, tr3) \<Rightarrow> (Some (Inr ()), tr3))
                     else (Some (Inr ()), tr2)
                 | (Some (Inl e), tr2) \<Rightarrow> (Some (Inl e), tr2)
                 | (None, tr2) \<Rightarrow> (None, tr2))"
      using 2 by (simp add: upload_url_stream_def)
    show ?thesis
    proof (cases "fst ?l")
      case None
      then have "upload_url_stream fuel w c messageId fileName contentType C sz stream tr =
                   (None, snd ?l)"
        unfolding eq by (cases ?l) simp
      then show ?thesis using rs inc by (intro exI [of _ rs]) simp
    next
      case (Some r)
      show ?thesis
      proof (cases r)
        case (Inl e)
        then have "upload_url_stream fuel w c messageId fileName contentType C sz stream tr =
                   (Some (Inl e), snd ?l)"
          unfolding eq using Some by (cases ?l) simp
        then show ?thesis using rs inc by (intro exI [of _ rs]) simp
      next
        case (Inr op)
        obtain offset pending where op: "op = (offset, pending)" by (cases op)
        have f: "fst ?l = Some (Inr (offset, pending))" using Some Inr op by simp
        have n: "next_start 0 rs = offset"
          and l: "offset + int (length pending) = (\<Sum>ch\<leftarrow>stream. int (length ch))"
          using rs(4) f by auto
        show ?thesis
        proof (cases "pending = []")
          case True
          then have "upload_url_stream fuel w c messageId fileName contentType C sz stream tr =
                   (Some (Inr ()), snd ?l)"
            unfolding eq using f by (cases ?l) simp
          moreover have "snd (last rs) = sz - 1"
            if "rs \<noteq> []" "(\<Sum>ch\<leftarrow>stream. int (length ch)) = sz"
            using that n l True next_start_last [of rs 0] by simp
          ultimately show ?thesis using rs inc by (intro exI [of _ rs]) simp
        next
          case False
          let ?ev = "FetchPut ?u offset (sz - 1) sz pending"
          have "snd (upload_url_stream fuel w c messageId fileName contentType C sz stream tr) =
                   snd ?l @ [?ev]"
            unfolding eq using f False
            by (cases ?l; cases rule: put_range_fst_cases
                [of w ?u offset "sz - 1" sz pending FinalChunkUploadFailed "snd ?l"]) simp_all
          then have "put_ranges (snd (upload_url_stream fuel w c messageId fileName contentType
                       C sz stream tr)) = put_ranges tr @ (rs @ [(offset, sz - 1)])"
            using rs(1) by (simp add: put_ranges_append)
          moreover have "contiguous_from 0 (rs @ [(offset, sz - 1)])"
            using rs(2) n by (simp add: contiguous_from_append)
          moreover have "sorted_wrt (<) (map fst (rs @ [(offset, sz - 1)]))"
            using starts_increasing_snoc [OF rs(2,3), of "sz - 1"] n by simp
          ultimately show ?thesis
            by (intro exI [of _ "rs @ [(offset, sz - 1)]"]) simp
        qed
      qed
    qed
  qed
qed

lemma normalizeChunkSize_unit: "normalizeChunkSize 327680 = 327680"
  by (simp add: normalizeChunkSize_def js_rem_def base_def)

lemma mock_C: "normalizeChunkSize (chunkSize (attachmentUploadOptions mock_client)) = 327680"
  by (simp add: mock_client_simps normalizeChunkSize_unit)

lemma mock_run_buffer:
  "uploadLargeContent 1 (mock_world\<lparr>fs_open := (\<lambda>p h. Some [[1, 2], [3]])\<rparr>) mock_client ''MSG-1'' ''a.bin'' [1, 2, 3]
     (Mime ''application/octet-stream'') [] =
   (Some (Inr ()),
    [GraphPost ''/users/shared@example.com/messages/MSG-1/attachments/createUploadSession''
       (AttachmentItem ''a.bin'' 3 (Mime ''application/octet-stream'')),
     FetchPut ''https://upload.example/session'' 0 2 3 [1, 2, 3]])"
  by (simp add: uploadLargeContent_def normalizeChunkSize_unit MAX_ATTACHMENT_SIZE_def api_post_def
      session_path_def mock_client_simps Let_def put_range_def subarray_def adjustOffset_def
      mock_world_def mock_reply_def mock_response_def)

lemma mock_run_path:
  "uploadLargeFileByPath (mock_world\<lparr>fs_open := (\<lambda>p h. Some [[1, 2], [3]])\<rparr>) mock_client
     ''MSG-1'' ''a.bin'' ''/tmp/a.bin'' (Mime ''application/octet-stream'') 3 [] =
   (Some (Inr ()),
    [GraphPost ''/users/shared@example.com/messages/MSG-1/attachments/createUploadSession''
       (AttachmentItem ''a.bin'' 3 (Mime ''application/octet-stream'')),
     FsOpen ''/tmp/a.bin'' 327680,
     FetchPut ''https://upload.example/session'' 0 1 3 [1, 2],
     FetchPut ''https://upload.example/session'' 2 2 3 [3],
     FsClose ''/tmp/a.bin''])"
  by (simp add: uploadLargeFileByPath_def normalizeChunkSize_unit MAX_ATTACHMENT_SIZE_def api_post_def
      session_path_def mock_client_simps Let_def put_range_def
      mock_world_def mock_reply_def mock_response_def)

lemma mock_run_stream:
  "upload_url_stream 1 (mock_world\<lparr>fs_open := (\<lambda>p h. Some [[1, 2], [3]])\<rparr>) mock_client ''MSG-1'' ''a.bin''
     (Mime ''application/octet-stream'') 327680 3 [[1, 2], [3]] [] =
   (Some (Inr ()),
    [GraphPost ''/users/shared@example.com/messages/MSG-1/attachments/createUploadSession''
       (AttachmentItem ''a.bin'' 3 (Mime ''application/octet-stream'')),
     FetchPut ''https://upload.example/session'' 0 2 3 [1, 2, 3]])"
  by (simp add: upload_url_stream_def api_post_def
      session_path_def mock_client_simps Let_def put_range_def
      mock_world_def mock_reply_def mock_response_def)

lemma trim_Nil [simp]: "trim [] = []"
  by (simp add: trim_def)

lemma spec_split_nonempty: "spec_split s \<noteq> []"
  by (induction s) (auto split: list.splits)

lemma spec_split_dropWhile:
  "filter (\<lambda>a. a \<noteq> []) (map trim (spec_split (dropWhile is_sep cs))) =
   filter (\<lambda>a. a \<noteq> []) (map trim (spec_split cs))"
  by (induction cs) simp_all

lemma split_fields_spec:
  "filter (\<lambda>a. a \<noteq> []) (map trim (split_fields cur s)) =
   filter (\<lambda>a. a \<noteq> []) (map trim ((cur @ hd (spec_split s)) # tl (spec_split s)))"
proof (induction cur s rule: split_fields.induct)
  case (1 cur)
  then show ?case by simp
next
  case (2 cur c cs)
  show ?case
  proof (cases "is_sep c")
    case True
    have "filter (\<lambda>a. a \<noteq> []) (map trim (split_fields [] (dropWhile is_sep cs))) =
          filter (\<lambda>a. a \<noteq> []) (map trim (spec_split (dropWhile is_sep cs)))"
      using 2(1) [OF True] spec_split_nonempty [of "dropWhile is_sep cs"]
      by (cases "spec_split (dropWhile is_sep cs)") simp_all
    then show ?thesis using True by (simp add: spec_split_dropWhile)
  next
    case False
    then show ?thesis
      using 2(2) [OF False] spec_split_nonempty [of cs]
      by (cases "spec_split cs") simp_all
  qed
qed

lemma split_seps_spec:
  "filter (\<lambda>a. a \<noteq> []) (map trim (split_seps s)) =
   filter (\<lambda>a. a \<noteq> []) (map trim (spec_split s))"
  using split_fields_spec [of "[]" s] spec_split_nonempty [of s]
  by (cases "spec_split s") (simp_all add: split_seps_def)

lemma push_fields_filter:
  "push_fields addresses fs = addresses @ filter (\<lambda>a. a \<noteq> []) (map trim fs)"
  by (induction fs arbitrary: addresses) (simp_all add: Let_def)

lemma set_array_from_set: "set (array_from_set xs) = set xs"
  unfolding array_from_set_def
  by (induction xs rule: rev_induct) (auto simp: set_insert_def)

lemma array_from_set_first: "array_from_set xs = rev (remdups (rev xs))"
proof (induction xs rule: rev_induct)
  case Nil
  then show ?case by (simp add: array_from_set_def)
next
  case (snoc x xs)
  have "array_from_set (xs @ [x]) = set_insert (array_from_set xs) x"
    by (simp add: array_from_set_def)
  then show ?case
    using snoc set_array_from_set [of xs] by (simp add: set_insert_def)
qed

subsection \<open>Chunk-size normalization\<close>

text \<open>
  With a chunk size of 0 and every PUT accepted, the loop of \<^verbatim>\<open>uploadLargeContent\<close>
  sends the empty range at offset 0 again and again: whatever the fuel, it has not
  returned.
\<close>

lemma zero_chunk_never_returns:
  assumes "content \<noteq> []" and "\<And>s e t b. accepted (fetch_put w u s e t b)"
  shows "fst (uploadLargeContent_loop fuel w u 0 content 0 tr) = None"
proof (induction fuel arbitrary: tr)
  case 0
  then show ?case using assms(1) by simp
next
  case (Suc fuel)
  then show ?case
    using assms(1) put_range_accepted [OF assms(2)] by (simp add: Let_def)
qed

text \<open>
  The quotient and the product of the normalization are doubles: a chunk size of
  \<open>2 ^ 70 + 2 ^ 18\<close> is taken to \<open>2 ^ 70\<close>, where exact arithmetic would give
  \<open>2 ^ 70 - 2 ^ 16\<close>.
\<close>

lemma normalizeChunkSize_rounds:
  "normalizeChunkSize (2 ^ 70 + 2 ^ 18) = 2 ^ 70"
  by code_simp

text \<open>
  C3 asks for a positive multiple of 320 KiB for every integer chunk size. The code
  breaks it at 0, and at the negative multiples: the floor of one unit,
  \<^verbatim>\<open>Math.max(base, ...)\<close>, sits behind the guard \<^verbatim>\<open>chunkSize % base !== 0\<close>, which is
  false there, so the value is left as it is. The constructor stores a chunk size of 0,
  and with it the chunked upload of a buffer never returns.
\<close>

theorem normalizeChunkSize_zero_unchanged:
  "normalizeChunkSize 0 = 0 \<and> \<not> 0 < normalizeChunkSize 0 \<and>
   normalizeChunkSize (- 327680) = - 327680 \<and>
   chunkSize (attachmentUploadOptions
     (newMailClient
        \<lparr>opt_sharedMailbox = ''shared@example.com'',
         opt_attachmentUploadOptions =
           Some \<lparr>cfg_largeFileThreshold = Some 1024, cfg_chunkSize = Some 0\<rparr>,
         opt_logger = None\<rparr>)) = 0 \<and>
   fst (uploadLargeContent_loop fuel mock_world ''https://upload.example/session'' 0
          [1, 2, 3] 0 tr) = None"
proof -
  have z: "normalizeChunkSize 0 = 0"
    by (simp add: normalizeChunkSize_def js_rem_def)
  have n: "normalizeChunkSize (- 327680) = - 327680"
    by (simp add: normalizeChunkSize_def js_rem_def base_def)
  have a: "accepted (fetch_put mock_world ''https://upload.example/session'' s e t b)"
    for s e t b
    by (simp add: mock_world_def accepted_def mock_response_def)
  have l: "fst (uploadLargeContent_loop fuel mock_world ''https://upload.example/session'' 0
          [1, 2, 3] 0 tr) = None"
    by (rule zero_chunk_never_returns) (simp_all add: a)
  show ?thesis
    using z n l by (simp add: newMailClient_def mergeOptions_def)
qed

subsection \<open>Retrieval\<close>

text \<open>
  C10: a call of the retrieval operation with an empty id fails with the error
  \<^verbatim>\<open>id is required\<close>, and no call has left the class: the record of calls is the one
  the operation started with.
\<close>

theorem getMailById_requires_id:
  "getMailById w c [] options tr = (Some (Inl IdRequired), tr)"
  by (simp add: getMailById_def)

subsection \<open>Sending without recipients\<close>

text \<open>
  C7, as stated, has the hook called once and the caller seeing the original error for
  every send without recipients. The hook is called unguarded inside the \<^verbatim>\<open>catch\<close>
  block: a hook that throws is called once, and the caller sees what the hook threw; and
  with \<^verbatim>\<open>logger: { error: undefined }\<close> the call itself is a \<open>TypeError\<close>, and no
  hook is called at all.
\<close>

theorem sendMail_hook_replaces_error:
  "sendMail 0 mock_world
     (newMailClient
        \<lparr>opt_sharedMailbox = ''shared@example.com'', opt_attachmentUploadOptions = None,
         opt_logger = Some (ErrorHook failingLogger)\<rparr>)
     mail_without_to [] =
   (Some (Inl CollaboratorFailure), [LoggerError ''Failed to send mail'' NoRecipients]) \<and>
   sendMail 0 mock_world
     (newMailClient
        \<lparr>opt_sharedMailbox = ''shared@example.com'', opt_attachmentUploadOptions = None,
         opt_logger = Some ErrorUndefined\<rparr>)
     mail_without_to [] =
   (Some (Inl TypeError), [])"
  by (simp add: sendMail_def sendMail_try_def mail_without_to_def newMailClient_def
      mergeLogger_def failingLogger_def Let_def)

text \<open>
  C7 (amended): when the \<^verbatim>\<open>to\<close> value gives no recipient, the \<^verbatim>\<open>try\<close> block fails
  with the no-recipients error before any call to the mail service; and when the
  configured logging hook is a function that returns, the send operation fails with the
  no-recipients error, the hook is called exactly once, with that error, and the caller
  sees that same error.
\<close>

theorem sendMail_no_recipients:
  assumes "buildRecipients (mail_to mail) = None \<or> buildRecipients (mail_to mail) = Some []"
    and "logger_error c = Some h"
    and "h ''Failed to send mail'' NoRecipients = None"
  shows "sendMail_try fuel w c mail tr = (Some (Inl NoRecipients), tr) \<and>
         sendMail fuel w c mail tr =
           (Some (Inl NoRecipients), tr @ [LoggerError ''Failed to send mail'' NoRecipients])"
  using assms by (auto simp: sendMail_def sendMail_try_def)

theorem sendMail_no_recipients_witness:
  "buildRecipients (Some (Single '' ; ,'')) = None \<and>
   logger_error mock_client = Some defaultLogger \<and>
   defaultLogger ''Failed to send mail'' NoRecipients = None \<and>
   sendMail 0 mock_world mock_client
     \<lparr>mail_subject = ''S'', mail_to = Some (Single '' ; ,''), mail_cc = None, mail_bcc = None,
      mail_text = Some ''x'', mail_html = None, mail_attachments = None\<rparr> [] =
   (Some (Inl NoRecipients), [LoggerError ''Failed to send mail'' NoRecipients])"
proof -
  have b: "buildRecipients (Some (Single '' ; ,'')) = None"
    by (simp add: split_seps_def is_sep_def trim_def is_space_def array_from_set_def)
  have l: "logger_error mock_client = Some defaultLogger"
    by (simp add: mock_client_simps)
  have d: "defaultLogger ''Failed to send mail'' NoRecipients = None"
    by (simp add: defaultLogger_def)
  have m: "buildRecipients (mail_to
             \<lparr>mail_subject = ''S'', mail_to = Some (Single '' ; ,''), mail_cc = None,
              mail_bcc = None, mail_text = Some ''x'', mail_html = None,
              mail_attachments = None\<rparr>) = None \<or>
           buildRecipients (mail_to
             \<lparr>mail_subject = ''S'', mail_to = Some (Single '' ; ,''), mail_cc = None,
              mail_bcc = None, mail_text = Some ''x'', mail_html = None,
              mail_attachments = None\<rparr>) = Some []"
    using b by simp
  show ?thesis
    using b l d sendMail_no_recipients [OF m l d, of 0 mock_world "[]"]
    by simp
qed

subsection \<open>Recipient parsing\<close>

text \<open>
  C8: for every \<^verbatim>\<open>to\<close> string, recipient parsing gives the addresses that the
  specification words describe: the string cut at semicolons and commas, the pieces
  trimmed, the empty ones dropped, duplicates removed with the first occurrence kept
  (and no list at all when nothing is left). The result has no duplicates, and the input
  \<^verbatim>\<open>a@ex.com; b@ex.com, a@ex.com\<close> gives \<^verbatim>\<open>a@ex.com\<close> and \<^verbatim>\<open>b@ex.com\<close>, in this order.
\<close>

theorem buildRecipients_string:
  "buildRecipients (Some (Single s)) =
     (if spec_recipients s = [] then None else Some (map EmailAddress (spec_recipients s))) \<and>
   distinct (spec_recipients s) \<and>
   buildRecipients (Some (Single ''a@ex.com; b@ex.com, a@ex.com'')) =
     Some [EmailAddress ''a@ex.com'', EmailAddress ''b@ex.com'']"
proof -
  have a: "push_parts [] [s] = filter (\<lambda>a. a \<noteq> []) (map trim (spec_split s))"
    by (simp add: push_fields_filter split_seps_spec)
  have u: "array_from_set (push_parts [] [s]) = spec_recipients s"
    unfolding a by (simp add: array_from_set_first spec_recipients_def)
  have e: "spec_recipients [] = []"
    by (simp add: spec_recipients_def)
  have 1: "buildRecipients (Some (Single s)) =
     (if spec_recipients s = [] then None else Some (map EmailAddress (spec_recipients s)))"
    using u e by (auto simp: Let_def simp del: push_parts.simps)
  have 2: "distinct (spec_recipients s)"
    by (simp add: spec_recipients_def)
  have 3: "buildRecipients (Some (Single ''a@ex.com; b@ex.com, a@ex.com'')) =
     Some [EmailAddress ''a@ex.com'', EmailAddress ''b@ex.com'']"
    by (simp add: split_seps_def is_sep_def trim_def is_space_def array_from_set_def
        set_insert_def Let_def)
  show ?thesis using 1 2 3 by blast
qed

subsection \<open>The size probe of a URL attachment\<close>

text \<open>
  C5: for a URL attachment (no content, no path, an http or https address) whose HEAD
  probe succeeds and reports a content length above the 150 MiB ceiling, the upload step
  fails with the attachment-too-large error, and the only call made is the HEAD request:
  the download GET is never issued.
\<close>

theorem probe_too_large:
  assumes "\<not> truthy_content (att_content a)" "\<not> truthy (att_path a)" "att_href a = Some href"
    and "is_http_url href"
    and "fetch_head w href = Some head" "res_ok head" "res_content_length head = Some n"
    and "n > MAX_ATTACHMENT_SIZE"
  shows "uploadAttachment fuel w c messageId a tr =
           (Some (Inl AttachmentTooLarge), tr @ [FetchHead href])"
proof -
  have "href \<noteq> []"
    using assms(4) by (rule is_http_url_nonempty)
  moreover have "probe_size w href = Some n"
    using assms(5-8) by (simp add: probe_size_def header_size_def MAX_ATTACHMENT_SIZE_def)
  ultimately show ?thesis
    using assms(1-4,8)
    by (simp add: uploadAttachment_def uploadAttachmentFromUrl_def known_above_def truthy_def)
qed

theorem probe_too_large_witness:
  "is_http_url ''http://example.com/big.bin'' \<and>
   uploadAttachment 0
     (mock_world\<lparr>fetch_head :=
        (\<lambda>url. Some (mock_response\<lparr>res_content_length := Some (150 * 1024 * 1024 + 1)\<rparr>))\<rparr>)
     mock_client ''MSG-1''
     \<lparr>att_filename = Some ''big.bin'', att_content = None, att_path = None,
      att_href = Some ''http://example.com/big.bin''\<rparr> [] =
   (Some (Inl AttachmentTooLarge), [FetchHead ''http://example.com/big.bin''])"
proof -
  have u: "is_http_url ''http://example.com/big.bin''"
    by (simp add: is_http_url_def toLowerCase_def toLowerCase_char_def)
  show ?thesis
    using u probe_too_large
      [of "\<lparr>att_filename = Some ''big.bin'', att_content = None, att_path = None,
            att_href = Some ''http://example.com/big.bin''\<rparr>"
          "''http://example.com/big.bin''"
          "mock_world\<lparr>fetch_head :=
             (\<lambda>url. Some (mock_response\<lparr>res_content_length := Some (150 * 1024 * 1024 + 1)\<rparr>))\<rparr>"
          "mock_response\<lparr>res_content_length := Some (150 * 1024 * 1024 + 1)\<rparr>"
          "150 * 1024 * 1024 + 1" 0 mock_client "''MSG-1''" "[]"]
    by (simp add: truthy_def truthy_content_def mock_response_def MAX_ATTACHMENT_SIZE_def)
qed

subsection \<open>Buffer attachments\<close>

text \<open>
  C1, as stated, makes an inline call for every length up to the threshold. The ceiling
  is checked first, so with a configured threshold of 200 MiB a buffer of 150 MiB plus
  one byte is within the threshold and yet rejected, without any call.
\<close>

theorem inline_threshold_above_ceiling:
  "int (length (replicate 157286401 (0::byte))) \<le>
     largeFileThreshold (attachmentUploadOptions
       (newMailClient \<lparr>opt_sharedMailbox = ''shared@example.com'',
          opt_attachmentUploadOptions =
            Some \<lparr>cfg_largeFileThreshold = Some (200 * 1024 * 1024), cfg_chunkSize = None\<rparr>,
          opt_logger = None\<rparr>)) \<and>
   uploadAttachment 0 mock_world
     (newMailClient \<lparr>opt_sharedMailbox = ''shared@example.com'',
          opt_attachmentUploadOptions =
            Some \<lparr>cfg_largeFileThreshold = Some (200 * 1024 * 1024), cfg_chunkSize = None\<rparr>,
          opt_logger = None\<rparr>)
     ''MSG-1''
     \<lparr>att_filename = Some ''big.bin'',
      att_content = Some (BufferContent (replicate 157286401 0)),
      att_path = None, att_href = None\<rparr> [] =
   (Some (Inl AttachmentTooLarge), [])"
  by (simp add: newMailClient_def mergeOptions_def uploadAttachment_def truthy_content_def
      upload_content_def content_buffer_def MAX_ATTACHMENT_SIZE_def Let_def)

text \<open>
  C1 (amended): for a buffer attachment of byte length \<open>L\<close>: if \<open>L\<close> is at most the
  threshold and at most the 150 MiB ceiling, the step makes exactly one call, the inline
  attach with the base64 encoding of the buffer; if \<open>L\<close> is above the threshold and at
  most the ceiling, the first call creates an upload session of declared size \<open>L\<close> and
  every further call is a range PUT; if \<open>L\<close> is above the ceiling, the step fails with
  the attachment-too-large error and makes no call.
\<close>

theorem buffer_attachment_dispatch:
  assumes "att_content a = Some (BufferContent buf)"
  shows
   "(int (length buf) \<le> largeFileThreshold (attachmentUploadOptions c) \<and>
     int (length buf) \<le> MAX_ATTACHMENT_SIZE \<longrightarrow>
       (\<exists>r. uploadAttachment fuel w c messageId a tr =
          (Some r, tr @ [GraphPost (attachments_path c messageId)
             (FileAttachment (resolveFileName w a) (toBase64 buf)
                (getContentTypeFromFileName (resolveFileName w a)))]))) \<and>
    (largeFileThreshold (attachmentUploadOptions c) < int (length buf) \<and>
     int (length buf) \<le> MAX_ATTACHMENT_SIZE \<longrightarrow>
       (\<exists>r evs. uploadAttachment fuel w c messageId a tr =
          (r, tr @ GraphPost (session_path c messageId)
             (AttachmentItem (resolveFileName w a) (int (length buf))
                (getContentTypeFromFileName (resolveFileName w a))) # evs) \<and>
          (\<forall>ev \<in> set evs. is_put ev))) \<and>
    (int (length buf) > MAX_ATTACHMENT_SIZE \<longrightarrow>
       uploadAttachment fuel w c messageId a tr = (Some (Inl AttachmentTooLarge), tr))"
proof -
  let ?n = "resolveFileName w a"
  let ?t = "getContentTypeFromFileName ?n"
  have ua: "uploadAttachment fuel w c messageId a tr =
              upload_content fuel w c messageId ?n ?t buf tr"
    using assms by (simp add: uploadAttachment_def truthy_content_def content_buffer_def Let_def)
  have small: "\<exists>r. upload_content fuel w c messageId ?n ?t buf tr =
          (Some r, tr @ [GraphPost (attachments_path c messageId) (FileAttachment ?n (toBase64 buf) ?t)])"
    if "int (length buf) \<le> largeFileThreshold (attachmentUploadOptions c)"
      "int (length buf) \<le> MAX_ATTACHMENT_SIZE"
    using that by (auto simp: upload_content_def api_post_def split: option.splits)
  have large: "\<exists>r evs. upload_content fuel w c messageId ?n ?t buf tr =
          (r, tr @ GraphPost (session_path c messageId) (AttachmentItem ?n (int (length buf)) ?t) # evs) \<and>
          (\<forall>ev \<in> set evs. is_put ev)"
    if h: "largeFileThreshold (attachmentUploadOptions c) < int (length buf)"
      "int (length buf) \<le> MAX_ATTACHMENT_SIZE"
  proof (cases "graph_post w (session_path c messageId) (AttachmentItem ?n (int (length buf)) ?t)")
    case None
    then show ?thesis using h
      by (auto simp: upload_content_def uploadLargeContent_def api_post_def)
  next
    case (Some session)
    let ?tr1 = "tr @ [GraphPost (session_path c messageId) (AttachmentItem ?n (int (length buf)) ?t)]"
    let ?l = "uploadLargeContent_loop fuel w (reply_uploadUrl session)
                (normalizeChunkSize (chunkSize (attachmentUploadOptions c))) buf 0 ?tr1"
    obtain evs where e: "snd ?l = ?tr1 @ evs" "\<forall>ev \<in> set evs. is_put ev"
      using uploadLargeContent_loop_puts by blast
    have "upload_content fuel w c messageId ?n ?t buf tr = ?l"
      using h Some by (simp add: upload_content_def uploadLargeContent_def api_post_def)
    then show ?thesis using e by (cases ?l) auto
  qed
  have big: "upload_content fuel w c messageId ?n ?t buf tr = (Some (Inl AttachmentTooLarge), tr)"
    if "int (length buf) > MAX_ATTACHMENT_SIZE"
    using that by (simp add: upload_content_def)
  show ?thesis unfolding ua using small large big by blast
qed

theorem buffer_attachment_dispatch_witness:
  "uploadAttachment 1 mock_world mock_client ''MSG-1''
     \<lparr>att_filename = Some ''note.txt'',
      att_content = Some (BufferContent (Buffer_from_string ''hello'')),
      att_path = None, att_href = None\<rparr> [] =
   (Some (Inr ()),
    [GraphPost ''/users/shared@example.com/messages/MSG-1/attachments''
       (FileAttachment ''note.txt'' ''aGVsbG8='' (Mime ''text/plain''))]) \<and>
   (\<exists>r evs.
      uploadAttachment 1 mock_world mock_client ''MSG-1''
        \<lparr>att_filename = Some ''big.bin'',
         att_content = Some (BufferContent (replicate 2000 0)),
         att_path = None, att_href = None\<rparr> [] =
      (r, GraphPost ''/users/shared@example.com/messages/MSG-1/attachments/createUploadSession''
            (AttachmentItem ''big.bin'' 2000 (Mime ''application/octet-stream'')) # evs) \<and>
      list_all is_put evs) \<and>
   uploadAttachment 1 mock_world mock_client ''MSG-1''
     \<lparr>att_filename = Some ''huge.bin'',
      att_content = Some (BufferContent (replicate 157286401 0)),
      att_path = None, att_href = None\<rparr> [] =
   (Some (Inl AttachmentTooLarge), [])"
proof -
  have n: "resolveFileName mock_world
             \<lparr>att_filename = Some f, att_content = x, att_path = None, att_href = None\<rparr> =
           (if f \<noteq> [] then f else ''attachment'')" for f x
    by (simp add: resolveFileName_def truthy_def)
  have t1: "getContentTypeFromFileName ''note.txt'' = Mime ''text/plain''"
    by (simp add: getContentTypeFromFileName_def split_pop_def toLowerCase_def
        toLowerCase_char_def mimeTypes_def)
  have t2: "getContentTypeFromFileName ''big.bin'' = Mime ''application/octet-stream''"
    by (simp add: getContentTypeFromFileName_def split_pop_def toLowerCase_def
        toLowerCase_char_def mimeTypes_def)
  have b: "toBase64 (Buffer_from_string ''hello'') = ''aGVsbG8=''"
    by (simp add: Buffer_from_string_def utf8_char_def b64_digit_def b64_alphabet_def)
  have l: "length (Buffer_from_string ''hello'') = 5"
    by (simp add: Buffer_from_string_def utf8_char_def)
  have g: "graph_post mock_world p x = Some mock_reply" for p x
    by (simp add: mock_world_def)
  show ?thesis
    using
      buffer_attachment_dispatch
        [of "\<lparr>att_filename = Some ''note.txt'',
              att_content = Some (BufferContent (Buffer_from_string ''hello'')),
              att_path = None, att_href = None\<rparr>"
            "Buffer_from_string ''hello''" mock_client 1 mock_world "''MSG-1''" "[]"]
      buffer_attachment_dispatch
        [of "\<lparr>att_filename = Some ''big.bin'',
              att_content = Some (BufferContent (replicate 2000 0)),
              att_path = None, att_href = None\<rparr>"
            "replicate 2000 0" mock_client 1 mock_world "''MSG-1''" "[]"]
      buffer_attachment_dispatch
        [of "\<lparr>att_filename = Some ''huge.bin'',
              att_content = Some (BufferContent (replicate 157286401 0)),
              att_path = None, att_href = None\<rparr>"
            "replicate 157286401 0" mock_client 1 mock_world "''MSG-1''" "[]"]
    apply (simp add: n t1 t2 b l mock_client_simps MAX_ATTACHMENT_SIZE_def attachments_path_def
        session_path_def list_all_iff)
    apply (simp add: uploadAttachment_def upload_content_def truthy_content_def content_buffer_def
        n t1 b l mock_client_simps MAX_ATTACHMENT_SIZE_def attachments_path_def api_post_def g)
    done
qed

subsection \<open>Sources that are silently skipped\<close>

text \<open>
  C6: a local-path attachment whose path cannot be stat'ed, or is not a regular file, or
  has size zero, and a URL attachment whose address does not start with \<^verbatim>\<open>http://\<close> or
  \<^verbatim>\<open>https://\<close>, raise no error. The step returns normally, having made at most the
  \<^verbatim>\<open>stat\<close> call (\<open>skipped\<close> below), the loop goes on with the remaining attachments,
  and a send whose only attachment is such a one succeeds as soon as the draft and the
  send calls do.
\<close>

theorem unavailable_source_skipped:
  assumes "\<not> truthy_content (att_content a)"
    and "(att_path a = Some p \<and> p \<noteq> [] \<and> skipped = [FsStat p] \<and>
          (fs_stat w p = None \<or>
           (\<exists>stats. fs_stat w p = Some stats \<and> (\<not> st_isFile stats \<or> st_size stats = 0)))) \<or>
         (\<not> truthy (att_path a) \<and> att_href a = Some href \<and> href \<noteq> [] \<and> skipped = [] \<and>
          \<not> is_http_url href)"
  shows
    "uploadAttachment fuel w c messageId a tr = (Some (Inr ()), tr @ skipped) \<and>
     uploadAttachments_loop fuel w c messageId (a # rest) tr =
       uploadAttachments_loop fuel w c messageId rest (tr @ skipped) \<and>
     (buildRecipients (mail_to mail) = Some (r # rs) \<and>
      mail_attachments mail = Some [a] \<and>
      graph_post w (''/users/'' @ sharedMailbox c @ ''/messages'')
        (DraftMessage
           \<lparr>dm_subject = mail_subject mail, dm_toRecipients = Some (r # rs),
            dm_ccRecipients = buildRecipients (mail_cc mail),
            dm_bccRecipients = buildRecipients (mail_bcc mail),
            dm_body = draft_body mail\<rparr>) = Some draft \<and>
      graph_post w (''/users/'' @ sharedMailbox c @ ''/messages/'' @ reply_id draft @ ''/send'')
        EmptyBody = Some sent \<longrightarrow>
      sendMail fuel w c mail tr =
        (Some (Inr (reply_id draft, reply_internetMessageId draft)),
         tr @ [GraphPost (''/users/'' @ sharedMailbox c @ ''/messages'')
                 (DraftMessage
                    \<lparr>dm_subject = mail_subject mail, dm_toRecipients = Some (r # rs),
                     dm_ccRecipients = buildRecipients (mail_cc mail),
                     dm_bccRecipients = buildRecipients (mail_bcc mail),
                     dm_body = draft_body mail\<rparr>)] @ skipped @
              [GraphPost (''/users/'' @ sharedMailbox c @ ''/messages/'' @ reply_id draft @
                 ''/send'') EmptyBody]))"
proof -
  have step: "uploadAttachment fuel w c m a tr' = (Some (Inr ()), tr' @ skipped)" for m tr'
    using assms
    by (auto simp: uploadAttachment_def upload_path_def uploadAttachmentFromUrl_def truthy_def
        Let_def)
  have send: "sendMail fuel w c mail tr =
        (Some (Inr (reply_id draft, reply_internetMessageId draft)),
         tr @ [GraphPost (''/users/'' @ sharedMailbox c @ ''/messages'')
                 (DraftMessage
                    \<lparr>dm_subject = mail_subject mail, dm_toRecipients = Some (r # rs),
                     dm_ccRecipients = buildRecipients (mail_cc mail),
                     dm_bccRecipients = buildRecipients (mail_bcc mail),
                     dm_body = draft_body mail\<rparr>)] @ skipped @
              [GraphPost (''/users/'' @ sharedMailbox c @ ''/messages/'' @ reply_id draft @
                 ''/send'') EmptyBody])"
    if "buildRecipients (mail_to mail) = Some (r # rs)"
      and "mail_attachments mail = Some [a]"
      and "graph_post w (''/users/'' @ sharedMailbox c @ ''/messages'')
        (DraftMessage
           \<lparr>dm_subject = mail_subject mail, dm_toRecipients = Some (r # rs),
            dm_ccRecipients = buildRecipients (mail_cc mail),
            dm_bccRecipients = buildRecipients (mail_bcc mail),
            dm_body = draft_body mail\<rparr>) = Some draft"
      and "graph_post w (''/users/'' @ sharedMailbox c @ ''/messages/'' @ reply_id draft @ ''/send'')
        EmptyBody = Some sent"
    using that step
    by (simp add: sendMail_def sendMail_try_def api_post_def uploadAttachments_def)
  show ?thesis using step send by simp
qed

theorem unavailable_source_skipped_witness:
  "sendMail 0 (mock_world\<lparr>fs_stat := (\<lambda>p. None)\<rparr>) mock_client
     \<lparr>mail_subject = ''S'', mail_to = Some (Single ''x@ex.com''), mail_cc = None,
      mail_bcc = None, mail_text = Some ''x'', mail_html = None,
      mail_attachments =
        Some [\<lparr>att_filename = Some ''gone.txt'', att_content = None,
               att_path = Some ''/tmp/gone.txt'', att_href = None\<rparr>]\<rparr> [] =
   (Some (Inr (''MSG-1'', ''<IM-MSG-1@exch.example.com>'')),
    [GraphPost ''/users/shared@example.com/messages''
       (DraftMessage
          \<lparr>dm_subject = ''S'', dm_toRecipients = Some [EmailAddress ''x@ex.com''],
           dm_ccRecipients = None, dm_bccRecipients = None,
           dm_body = Some (''text'', ''x'')\<rparr>),
     FsStat ''/tmp/gone.txt'',
     GraphPost ''/users/shared@example.com/messages/MSG-1/send'' EmptyBody]) \<and>
   sendMail 0 mock_world mock_client
     \<lparr>mail_subject = ''S'', mail_to = Some (Single ''x@ex.com''), mail_cc = None,
      mail_bcc = None, mail_text = Some ''x'', mail_html = None,
      mail_attachments =
        Some [\<lparr>att_filename = None, att_content = None, att_path = None,
               att_href = Some ''ftp://example.com/f.bin''\<rparr>]\<rparr> [] =
   (Some (Inr (''MSG-1'', ''<IM-MSG-1@exch.example.com>'')),
    [GraphPost ''/users/shared@example.com/messages''
       (DraftMessage
          \<lparr>dm_subject = ''S'', dm_toRecipients = Some [EmailAddress ''x@ex.com''],
           dm_ccRecipients = None, dm_bccRecipients = None,
           dm_body = Some (''text'', ''x'')\<rparr>),
     GraphPost ''/users/shared@example.com/messages/MSG-1/send'' EmptyBody])"
proof -
  let ?a1 = "\<lparr>att_filename = Some ''gone.txt'', att_content = None,
              att_path = Some ''/tmp/gone.txt'', att_href = None\<rparr>"
  let ?a2 = "\<lparr>att_filename = None, att_content = None, att_path = None,
              att_href = Some ''ftp://example.com/f.bin''\<rparr>"
  let ?w1 = "mock_world\<lparr>fs_stat := (\<lambda>p. None)\<rparr>"
  let ?m1 = "\<lparr>mail_subject = ''S'', mail_to = Some (Single ''x@ex.com''), mail_cc = None,
              mail_bcc = None, mail_text = Some ''x'', mail_html = None,
              mail_attachments = Some [?a1]\<rparr>"
  let ?m2 = "\<lparr>mail_subject = ''S'', mail_to = Some (Single ''x@ex.com''), mail_cc = None,
              mail_bcc = None, mail_text = Some ''x'', mail_html = None,
              mail_attachments = Some [?a2]\<rparr>"
  have c1: "\<not> truthy_content (att_content ?a1)" and c2: "\<not> truthy_content (att_content ?a2)"
    by (simp_all add: truthy_content_def)
  have u: "\<not> is_http_url ''ftp://example.com/f.bin''"
    by (simp add: is_http_url_def toLowerCase_def toLowerCase_char_def)
  have h1: "(att_path ?a1 = Some ''/tmp/gone.txt'' \<and> ''/tmp/gone.txt'' \<noteq> [] \<and>
             [FsStat ''/tmp/gone.txt''] = [FsStat ''/tmp/gone.txt''] \<and>
             (fs_stat ?w1 ''/tmp/gone.txt'' = None \<or>
              (\<exists>stats. fs_stat ?w1 ''/tmp/gone.txt'' = Some stats \<and>
                 (\<not> st_isFile stats \<or> st_size stats = 0)))) \<or>
            (\<not> truthy (att_path ?a1) \<and> att_href ?a1 = Some [] \<and> [] \<noteq> [] \<and>
             [FsStat ''/tmp/gone.txt''] = [] \<and> \<not> is_http_url [])"
    by simp
  have h2: "(att_path ?a2 = Some [] \<and> [] \<noteq> [] \<and> [] = [FsStat []] \<and>
             (fs_stat mock_world [] = None \<or>
              (\<exists>stats. fs_stat mock_world [] = Some stats \<and>
                 (\<not> st_isFile stats \<or> st_size stats = 0)))) \<or>
            (\<not> truthy (att_path ?a2) \<and> att_href ?a2 = Some ''ftp://example.com/f.bin'' \<and>
             ''ftp://example.com/f.bin'' \<noteq> [] \<and> [] = [] \<and>
             \<not> is_http_url ''ftp://example.com/f.bin'')"
    using u by (simp add: truthy_def)
  have r: "buildRecipients (Some (Single ''x@ex.com'')) = Some [EmailAddress ''x@ex.com'']"
    by (simp add: split_seps_def is_sep_def trim_def is_space_def array_from_set_def
        set_insert_def)
  have b: "draft_body ?m1 = Some (''text'', ''x'')" "draft_body ?m2 = Some (''text'', ''x'')"
    by (simp_all add: draft_body_def truthy_def)
  have g: "graph_post ?w1 p x = Some mock_reply" "graph_post mock_world p x = Some mock_reply"
    for p x
    by (simp_all add: mock_world_def)
  have n: "buildRecipients None = None"
    by simp
  show ?thesis
    using
      unavailable_source_skipped
        [OF c1 h1, of 0 mock_client "''MSG-1''" "[]" "[]" ?m1 "EmailAddress ''x@ex.com''" "[]"
           mock_reply mock_reply]
      unavailable_source_skipped
        [OF c2 h2, of 0 mock_client "''MSG-1''" "[]" "[]" ?m2 "EmailAddress ''x@ex.com''" "[]"
           mock_reply mock_reply]
    by (simp add: r b g n mock_client_simps del: buildRecipients.simps)
      (simp add: mock_reply_def)
qed

subsection \<open>Downloads that are refused\<close>

text \<open>
  C9: for an http or https URL attachment whose probe did not stop the upload, if the
  download GET gives a response that is not ok, or (when the probe did not report a size
  within the threshold) a response without a body, the step returns normally after the
  HEAD and the GET, with no call to the mail service, and the loop goes on with the
  remaining attachments.
\<close>

theorem url_get_not_ok_skipped:
  assumes "\<not> truthy_content (att_content a)" "\<not> truthy (att_path a)" "att_href a = Some href"
    and "is_http_url href"
    and "\<not> known_above (probe_size w href) MAX_ATTACHMENT_SIZE"
    and "fetch_get w href = Some res"
    and "\<not> res_ok res \<or>
         (\<not> known_at_most (probe_size w href) (largeFileThreshold (attachmentUploadOptions c)) \<and>
          res_body res = None)"
  shows "uploadAttachment fuel w c messageId a tr =
           (Some (Inr ()), tr @ [FetchHead href, FetchGet href]) \<and>
         uploadAttachments_loop fuel w c messageId (a # rest) tr =
           uploadAttachments_loop fuel w c messageId rest (tr @ [FetchHead href, FetchGet href])"
proof -
  have "href \<noteq> []"
    using assms(4) by (rule is_http_url_nonempty)
  then have "uploadAttachment fuel w c messageId a tr =
           (Some (Inr ()), tr @ [FetchHead href, FetchGet href])"
    using assms
    by (auto simp: uploadAttachment_def uploadAttachmentFromUrl_def truthy_def Let_def
        upload_url_small_def upload_url_download_def split: option.splits)
  then show ?thesis by simp
qed

theorem url_get_not_ok_skipped_witness:
  "uploadAttachment 0
     (mock_world\<lparr>fetch_get := (\<lambda>url. Some (mock_response\<lparr>res_ok := False, res_status := 404\<rparr>))\<rparr>)
     mock_client ''MSG-1''
     \<lparr>att_filename = None, att_content = None, att_path = None,
      att_href = Some ''https://example.com/a.bin''\<rparr> [] =
   (Some (Inr ()), [FetchHead ''https://example.com/a.bin'', FetchGet ''https://example.com/a.bin'']) \<and>
   uploadAttachment 0
     (mock_world\<lparr>fetch_head := (\<lambda>url. Some mock_response)\<rparr>)
     mock_client ''MSG-1''
     \<lparr>att_filename = None, att_content = None, att_path = None,
      att_href = Some ''https://example.com/a.bin''\<rparr> [] =
   (Some (Inr ()), [FetchHead ''https://example.com/a.bin'', FetchGet ''https://example.com/a.bin''])"
proof -
  let ?a = "\<lparr>att_filename = None, att_content = None, att_path = None,
             att_href = Some ''https://example.com/a.bin''\<rparr>"
  let ?w1 = "mock_world\<lparr>fetch_get :=
               (\<lambda>url. Some (mock_response\<lparr>res_ok := False, res_status := 404\<rparr>))\<rparr>"
  let ?w2 = "mock_world\<lparr>fetch_head := (\<lambda>url. Some mock_response)\<rparr>"
  have a: "\<not> truthy_content (att_content ?a)" "\<not> truthy (att_path ?a)"
    "att_href ?a = Some ''https://example.com/a.bin''"
    by (simp_all add: truthy_content_def truthy_def)
  have u: "is_http_url ''https://example.com/a.bin''"
    by (simp add: is_http_url_def toLowerCase_def toLowerCase_char_def)
  have p1: "probe_size ?w1 ''https://example.com/a.bin'' = Some 10"
    by (simp add: probe_size_def mock_world_def mock_response_def header_size_def)
  have p2: "probe_size ?w2 ''https://example.com/a.bin'' = None"
    by (simp add: probe_size_def mock_response_def header_size_def)
  have k1: "\<not> known_above (probe_size ?w1 ''https://example.com/a.bin'') MAX_ATTACHMENT_SIZE"
    by (simp add: p1 known_above_def MAX_ATTACHMENT_SIZE_def)
  have k2: "\<not> known_above (probe_size ?w2 ''https://example.com/a.bin'') MAX_ATTACHMENT_SIZE"
    by (simp add: p2 known_above_def)
  have g1: "fetch_get ?w1 ''https://example.com/a.bin'' =
              Some (mock_response\<lparr>res_ok := False, res_status := 404\<rparr>)"
    by simp
  have g2: "fetch_get ?w2 ''https://example.com/a.bin'' = Some mock_response"
    by (simp add: mock_world_def)
  have d1: "\<not> res_ok (mock_response\<lparr>res_ok := False, res_status := 404\<rparr>) \<or>
         (\<not> known_at_most (probe_size ?w1 ''https://example.com/a.bin'')
               (largeFileThreshold (attachmentUploadOptions mock_client)) \<and>
          res_body (mock_response\<lparr>res_ok := False, res_status := 404\<rparr>) = None)"
    by simp
  have d2: "\<not> res_ok mock_response \<or>
         (\<not> known_at_most (probe_size ?w2 ''https://example.com/a.bin'')
               (largeFileThreshold (attachmentUploadOptions mock_client)) \<and>
          res_body mock_response = None)"
    by (simp add: p2 known_at_most_def) (simp add: mock_response_def)
  show ?thesis
    using url_get_not_ok_skipped [OF a u k1 g1 d1, of 0 "''MSG-1''" "[]" "[]", THEN conjunct1]
      url_get_not_ok_skipped [OF a u k2 g2 d2, of 0 "''MSG-1''" "[]" "[]", THEN conjunct1]
    by simp
qed

subsection \<open>The ranges of the chunked-upload loop\<close>

text \<open>
  C2: for a buffer of total length \<open>T > 0\<close> and a chunk size \<open>C > 0\<close>, when every PUT
  is accepted the loop of \<^verbatim>\<open>uploadLargeContent\<close> returns (fuel for \<open>T / C\<close> rounds is
  enough), and the ranges it has sent have strictly increasing end offsets, cover exactly
  the interval from 0 to \<open>T - 1\<close>, and are \<open>\<lceil>T / C\<rceil>\<close> in number.
\<close>

theorem chunk_ranges_partition:
  assumes "0 < T" "0 < C" "int (length content) = T"
    and "\<forall>s e t b. accepted (fetch_put w uploadUrl s e t b)"
    and "T \<le> int fuel * C"
  shows "\<exists>tr' rs.
           uploadLargeContent_loop fuel w uploadUrl C content 0 tr = (Some (Inr ()), tr') \<and>
           put_ranges tr' = put_ranges tr @ rs \<and>
           int (length rs) = \<lceil>real_of_int T / real_of_int C\<rceil> \<and>
           sorted_wrt (<) (map snd rs) \<and>
           (\<Union>(s, e) \<in> set rs. {s..e}) = {0..T - 1}"
proof -
  let ?l = "uploadLargeContent_loop fuel w uploadUrl C content 0 tr"
  have fin: "fst ?l = Some (Inr ())"
    using buffer_loop_completes [of C w uploadUrl content 0 fuel tr] assms by simp
  obtain rs where rs: "put_ranges (snd ?l) = put_ranges tr @ rs"
    "contiguous_from 0 rs" "\<forall>(a, b) \<in> set rs. a \<le> b"
    "fst ?l = Some (Inr ()) \<longrightarrow>
       next_start 0 rs = max 0 (int (length content)) \<and>
       int (length rs) =
         (if 0 < int (length content) then (int (length content) - 0 + C - 1) div C else 0)"
    using buffer_loop_ranges [OF assms(2), of fuel w uploadUrl content 0 tr] by blast
  have n: "next_start 0 rs = T" and c: "int (length rs) = (T + C - 1) div C"
    using rs(4) fin assms(1,3) by simp_all
  have "int (length rs) = \<lceil>real_of_int T / real_of_int C\<rceil>"
    using c ceiling_div [OF assms(2), of T] by simp
  moreover have "sorted_wrt (<) (map snd rs)"
    using contiguous_ends_increasing [OF rs(2,3)] .
  moreover have "(\<Union>(s, e) \<in> set rs. {s..e}) = {0..T - 1}"
    using contiguous_union [OF rs(2,3)] n by simp
  ultimately show ?thesis
    using fin rs(1) by (intro exI [of _ "snd ?l"] exI [of _ rs]) (simp add: prod_eq_iff)
qed

theorem chunk_ranges_partition_witness:
  "uploadLargeContent_loop 2 mock_world ''https://upload.example/session'' 2 [1, 2, 3] 0 [] =
     (Some (Inr ()),
      [FetchPut ''https://upload.example/session'' 0 1 3 [1, 2],
       FetchPut ''https://upload.example/session'' 2 2 3 [3]]) \<and>
   \<lceil>real_of_int 3 / real_of_int 2\<rceil> = 2"
proof -
  have a: "\<forall>s e t b. accepted (fetch_put mock_world ''https://upload.example/session'' s e t b)"
    by (simp add: mock_world_def accepted_def mock_response_def)
  have r: "uploadLargeContent_loop 2 mock_world ''https://upload.example/session'' 2 [1, 2, 3] 0 [] =
     (Some (Inr ()),
      [FetchPut ''https://upload.example/session'' 0 1 3 [1, 2],
       FetchPut ''https://upload.example/session'' 2 2 3 [3]])"
    by (simp add: numeral_2_eq_2 Let_def put_range_def mock_world_def mock_response_def
        subarray_def adjustOffset_def)
  show ?thesis
    using chunk_ranges_partition
      [of 3 2 "[1, 2, 3]" mock_world "''https://upload.example/session''" 2 "[]"] a r
    by simp
qed

subsection \<open>Contiguity of the ranges of a chunked transfer\<close>

text \<open>
  C4, as stated, fails in two ways. With a configured chunk size of 0, which the
  normalization leaves at 0, the buffer loop sends the range from 0 to -1 again and
  again: the start offsets do not ascend. And the path variant takes each end offset
  from the bytes that the stream yields: when the file gives 3 bytes after
  \<^verbatim>\<open>stat\<close> reported 2000, the transfer completes with a final range ending at 2.
\<close>

theorem chunked_ranges_counterexample:
  "put_ranges (snd (uploadAttachment 2 mock_world
      (newMailClient
         \<lparr>opt_sharedMailbox = ''shared@example.com'',
          opt_attachmentUploadOptions =
            Some \<lparr>cfg_largeFileThreshold = Some 2, cfg_chunkSize = Some 0\<rparr>,
          opt_logger = None\<rparr>)
      ''MSG-1''
      \<lparr>att_filename = Some ''a.bin'', att_content = Some (BufferContent [1, 2, 3]),
       att_path = None, att_href = None\<rparr> [])) = [(0, - 1), (0, - 1)] \<and>
   uploadAttachment 0
     (mock_world\<lparr>fs_stat := (\<lambda>p. Some \<lparr>st_isFile = True, st_size = 2000\<rparr>),
                 fs_open := (\<lambda>p h. Some [[1, 2, 3]])\<rparr>)
     mock_client ''MSG-1''
     \<lparr>att_filename = Some ''f.bin'', att_content = None, att_path = Some ''/tmp/f.bin'',
      att_href = None\<rparr> [] =
   (Some (Inr ()),
    [FsStat ''/tmp/f.bin'',
     GraphPost ''/users/shared@example.com/messages/MSG-1/attachments/createUploadSession''
       (AttachmentItem ''f.bin'' 2000 (Mime ''application/octet-stream'')),
     FsOpen ''/tmp/f.bin'' 327680,
     FetchPut ''https://upload.example/session'' 0 2 2000 [1, 2, 3],
     FsClose ''/tmp/f.bin''])"
proof -
  have t: "getContentTypeFromFileName ''a.bin'' = Mime ''application/octet-stream''"
    "getContentTypeFromFileName ''f.bin'' = Mime ''application/octet-stream''"
    by (simp_all add: getContentTypeFromFileName_def split_pop_def toLowerCase_def
        toLowerCase_char_def mimeTypes_def)
  have c0: "attachmentUploadOptions (newMailClient
         \<lparr>opt_sharedMailbox = ''shared@example.com'',
          opt_attachmentUploadOptions =
            Some \<lparr>cfg_largeFileThreshold = Some 2, cfg_chunkSize = Some 0\<rparr>,
          opt_logger = None\<rparr>) =
        \<lparr>largeFileThreshold = 2, chunkSize = 0\<rparr>"
    by (simp add: newMailClient_def mergeOptions_def normalizeChunkSize_def js_rem_def)
  have n0: "normalizeChunkSize 0 = 0"
    by (simp add: normalizeChunkSize_def js_rem_def)
  have 1: "put_ranges (snd (uploadAttachment 2 mock_world
      (newMailClient
         \<lparr>opt_sharedMailbox = ''shared@example.com'',
          opt_attachmentUploadOptions =
            Some \<lparr>cfg_largeFileThreshold = Some 2, cfg_chunkSize = Some 0\<rparr>,
          opt_logger = None\<rparr>)
      ''MSG-1''
      \<lparr>att_filename = Some ''a.bin'', att_content = Some (BufferContent [1, 2, 3]),
       att_path = None, att_href = None\<rparr> [])) = [(0, - 1), (0, - 1)]"
    by (simp add: uploadAttachment_def truthy_content_def resolveFileName_def truthy_def t
        content_buffer_def upload_content_def c0 n0 MAX_ATTACHMENT_SIZE_def
        uploadLargeContent_def api_post_def numeral_2_eq_2 Let_def put_range_def
        mock_world_def mock_reply_def mock_response_def)
  have 2: "uploadAttachment 0
     (mock_world\<lparr>fs_stat := (\<lambda>p. Some \<lparr>st_isFile = True, st_size = 2000\<rparr>),
                 fs_open := (\<lambda>p h. Some [[1, 2, 3]])\<rparr>)
     mock_client ''MSG-1''
     \<lparr>att_filename = Some ''f.bin'', att_content = None, att_path = Some ''/tmp/f.bin'',
      att_href = None\<rparr> [] =
   (Some (Inr ()),
    [FsStat ''/tmp/f.bin'',
     GraphPost ''/users/shared@example.com/messages/MSG-1/attachments/createUploadSession''
       (AttachmentItem ''f.bin'' 2000 (Mime ''application/octet-stream'')),
     FsOpen ''/tmp/f.bin'' 327680,
     FetchPut ''https://upload.example/session'' 0 2 2000 [1, 2, 3],
     FsClose ''/tmp/f.bin''])"
    by (simp add: uploadAttachment_def truthy_content_def resolveFileName_def truthy_def t
        upload_path_def mock_client_simps MAX_ATTACHMENT_SIZE_def
        uploadLargeFileByPath_def normalizeChunkSize_unit api_post_def session_path_def Let_def
        put_range_def
        mock_world_def mock_reply_def mock_response_def)
  show ?thesis using 1 2 by (rule conjI)
qed

text \<open>
  C4 (amended): in every chunked transfer with a positive normalized chunk size (buffer,
  path and streaming-URL variants), the ranges sent start at 0, each range starts one
  past the end of the range before it, and the start offsets ascend strictly (in the
  path variant as long as the file stream yields no empty chunk); and when the transfer
  completes and the source has yielded exactly the declared number of bytes (as a buffer
  always does), the final range ends at the declared total length minus one.
\<close>

theorem chunked_ranges_contiguous:
  assumes "0 < normalizeChunkSize (chunkSize (attachmentUploadOptions c))"
  shows
    "(\<exists>rs. put_ranges (snd (uploadLargeContent fuel w c messageId fileName content contentType
               tr)) = put_ranges tr @ rs \<and>
          contiguous_from 0 rs \<and> sorted_wrt (<) (map fst rs) \<and>
          (fst (uploadLargeContent fuel w c messageId fileName content contentType tr) =
             Some (Inr ()) \<and> rs \<noteq> [] \<longrightarrow>
           snd (last rs) = int (length content) - 1)) \<and>
     (fs_open w filePath (normalizeChunkSize (chunkSize (attachmentUploadOptions c))) =
        Some chunks \<longrightarrow>
      (\<exists>rs. put_ranges (snd (uploadLargeFileByPath w c messageId fileName filePath contentType
                fileSize tr)) = put_ranges tr @ rs \<and>
           contiguous_from 0 rs \<and>
           ([] \<notin> set chunks \<longrightarrow> sorted_wrt (<) (map fst rs)) \<and>
           (fst (uploadLargeFileByPath w c messageId fileName filePath contentType fileSize tr) =
              Some (Inr ()) \<and> rs \<noteq> [] \<and> (\<Sum>ch\<leftarrow>chunks. int (length ch)) = fileSize \<longrightarrow>
            snd (last rs) = fileSize - 1))) \<and>
     (\<exists>rs. put_ranges (snd (upload_url_stream fuel w c messageId fileName contentType
               (normalizeChunkSize (chunkSize (attachmentUploadOptions c))) sz stream tr)) =
            put_ranges tr @ rs \<and>
          contiguous_from 0 rs \<and> sorted_wrt (<) (map fst rs) \<and>
          (fst (upload_url_stream fuel w c messageId fileName contentType
                 (normalizeChunkSize (chunkSize (attachmentUploadOptions c))) sz stream tr) =
             Some (Inr ()) \<and> rs \<noteq> [] \<and> (\<Sum>ch\<leftarrow>stream. int (length ch)) = sz \<longrightarrow>
           snd (last rs) = sz - 1))"
  using uploadLargeContent_ranges [OF assms, of fuel w messageId fileName content contentType tr]
    uploadLargeFileByPath_ranges [of w filePath c chunks messageId fileName contentType fileSize tr]
    upload_url_stream_ranges [OF assms, of fuel w c messageId fileName contentType sz stream tr]
  by blast

theorem chunked_ranges_contiguous_witness:
  "0 < normalizeChunkSize (chunkSize (attachmentUploadOptions mock_client)) \<and>
   uploadLargeContent 1 (mock_world\<lparr>fs_open := (\<lambda>p h. Some [[1, 2], [3]])\<rparr>) mock_client
     ''MSG-1'' ''a.bin'' [1, 2, 3] (Mime ''application/octet-stream'') [] =
   (Some (Inr ()),
    [GraphPost ''/users/shared@example.com/messages/MSG-1/attachments/createUploadSession''
       (AttachmentItem ''a.bin'' 3 (Mime ''application/octet-stream'')),
     FetchPut ''https://upload.example/session'' 0 2 3 [1, 2, 3]]) \<and>
   fs_open (mock_world\<lparr>fs_open := (\<lambda>p h. Some [[1, 2], [3]])\<rparr>) ''/tmp/a.bin''
     (normalizeChunkSize (chunkSize (attachmentUploadOptions mock_client))) =
     Some [[1, 2], [3]] \<and>
   uploadLargeFileByPath (mock_world\<lparr>fs_open := (\<lambda>p h. Some [[1, 2], [3]])\<rparr>) mock_client
     ''MSG-1'' ''a.bin'' ''/tmp/a.bin'' (Mime ''application/octet-stream'') 3 [] =
   (Some (Inr ()),
    [GraphPost ''/users/shared@example.com/messages/MSG-1/attachments/createUploadSession''
       (AttachmentItem ''a.bin'' 3 (Mime ''application/octet-stream'')),
     FsOpen ''/tmp/a.bin'' 327680,
     FetchPut ''https://upload.example/session'' 0 1 3 [1, 2],
     FetchPut ''https://upload.example/session'' 2 2 3 [3],
     FsClose ''/tmp/a.bin'']) \<and>
   upload_url_stream 1 (mock_world\<lparr>fs_open := (\<lambda>p h. Some [[1, 2], [3]])\<rparr>) mock_client
     ''MSG-1'' ''a.bin'' (Mime ''application/octet-stream'') 327680 3 [[1, 2], [3]] [] =
   (Some (Inr ()),
    [GraphPost ''/users/shared@example.com/messages/MSG-1/attachments/createUploadSession''
       (AttachmentItem ''a.bin'' 3 (Mime ''application/octet-stream'')),
     FetchPut ''https://upload.example/session'' 0 2 3 [1, 2, 3]])"
proof -
  let ?w = "mock_world\<lparr>fs_open := (\<lambda>p h. Some [[1, 2], [3]])\<rparr>"
  have p: "0 < normalizeChunkSize (chunkSize (attachmentUploadOptions mock_client))"
    by (simp add: mock_C)
  have o: "fs_open ?w ''/tmp/a.bin''
             (normalizeChunkSize (chunkSize (attachmentUploadOptions mock_client))) =
           Some [[1, 2], [3]]"
    by simp
  show ?thesis
    using p o mock_run_buffer mock_run_path mock_run_stream
      chunked_ranges_contiguous
        [OF p, where fuel = 1 and w = ?w
           and messageId = "''MSG-1''" and fileName = "''a.bin''" and content = "[1, 2, 3]"
           and contentType = "Mime ''application/octet-stream''" and tr = "[]"
           and filePath = "''/tmp/a.bin''" and chunks = "[[1, 2], [3]]" and fileSize = 3
           and sz = 3 and stream = "[[1, 2], [3]]"]
    by blast
qed


end
